theory Spec2Isabelle
  imports Main
begin

section \<open>Data model of server.js\<close>

text \<open>
  The Prisma models \<open>Photo\<close> and \<open>Video\<close> have the same columns. Timestamps are
  readings of the clock (a natural number of seconds); \<open>deletedAt\<close> is the nullable
  column. Strings are lists of 8-bit characters.
\<close>

record asset =
  asset_id :: string
  url :: string
  tags :: "string list"
  title :: string
  createdAt :: nat
  updatedAt :: nat
  deletedAt :: "nat option"

text \<open>The first argument of \<open>fetchAndCache\<close>, which selects \<open>prisma[modelName]\<close>.\<close>

datatype modelName = photo | video

fun modelName_str :: "modelName \<Rightarrow> string" where
  "modelName_str photo = ''photo''"
| "modelName_str video = ''video''"

text \<open>
  The values a route parameter or a query parameter can take in a handler: missing,
  null, a string, or (from a repeated query parameter) an array of strings.
\<close>

datatype jsval = Undefined | Null | Str string | Arr "string list"

fun truthy :: "jsval \<Rightarrow> bool" where
  "truthy Undefined = False"
| "truthy Null = False"
| "truthy (Str s) = (s \<noteq> [])"
| "truthy (Arr xs) = True"

fun is_string :: "jsval \<Rightarrow> bool" where
  "is_string (Str s) = True"
| "is_string v = False"

fun str_of :: "jsval \<Rightarrow> string" where
  "str_of (Str s) = s"
| "str_of v = []"

text \<open>
  What Redis holds under a key is the text \<open>JSON.stringify(result)\<close>; the only writer
  in server.js is \<open>fetchAndCache\<close>, whose result is one row or a non-empty array of
  rows. The text is represented by the value it encodes, so \<open>JSON.parse\<close> of a stored
  text is the stored value and a stored text is never the empty (falsy) string.
\<close>

datatype json = JAsset asset | JAssets "asset list"

datatype err =
    RedisError
  | PrismaError string
  | SyntaxError
  | HttpError nat string

record listing =
  videos :: "asset list"
  totalVideos :: int
  totalPages :: int
  currentPage :: "int option"
  hasNextPage :: bool
  hasPreviousPage :: bool

datatype body =
    Json json
  | Error string
  | ErrorOf err
  | AllVideos "asset list" nat
  | Page listing
  | Deleted string asset

record response =
  status :: nat
  body :: body

text \<open>Every call to a collaborator (the Redis client, the Prisma client) is logged.\<close>

datatype call =
    Redis_get string
  | Redis_setEx string nat
  | Prisma modelName string

text \<open>
  The world: both tables in the order the database stores the rows, the order in which
  the database compares ids (its collation), the Redis keys with their values and expiry
  times, whether the Redis client currently rejects its calls, the clock and the log.
\<close>

record world =
  photo_tbl :: "asset list"
  video_tbl :: "asset list"
  collation :: "string \<Rightarrow> string \<Rightarrow> bool"
  redis :: "string \<rightharpoonup> (json \<times> nat)"
  redis_get_fails :: bool
  redis_setEx_fails :: bool
  clock :: nat
  calls :: "call list"

definition record_call :: "call \<Rightarrow> world \<Rightarrow> world" where
  "record_call c w = w\<lparr>calls := calls w @ [c]\<rparr>"

definition tick :: "nat \<Rightarrow> world \<Rightarrow> world" where
  "tick d w = w\<lparr>clock := clock w + d\<rparr>"

section \<open>The collaborators\<close>

subsection \<open>Redis: get and setEx with expiry\<close>

text \<open>An entry is the value with the time at which it expires.\<close>

definition redis_lookup :: "world \<Rightarrow> string \<Rightarrow> json option" where
  "redis_lookup w k =
     (case redis w k of
        None \<Rightarrow> None
      | Some (v, expires) \<Rightarrow> if clock w < expires then Some v else None)"

definition redis_get :: "string \<Rightarrow> world \<Rightarrow> (err + json option) \<times> world" where
  "redis_get k w =
     (if redis_get_fails w then (Inl RedisError, record_call (Redis_get k) w)
      else (Inr (redis_lookup w k), record_call (Redis_get k) w))"

definition redis_setEx :: "string \<Rightarrow> nat \<Rightarrow> json \<Rightarrow> world \<Rightarrow> (err + unit) \<times> world" where
  "redis_setEx k ttl v w =
     (if redis_setEx_fails w then (Inl RedisError, record_call (Redis_setEx k ttl) w)
      else (Inr (), (record_call (Redis_setEx k ttl) w)\<lparr>redis := (redis w)(k \<mapsto> (v, clock w + ttl))\<rparr>))"

subsection \<open>Prisma: the queries server.js issues\<close>

definition table :: "modelName \<Rightarrow> world \<Rightarrow> asset list" where
  "table m w = (case m of photo \<Rightarrow> photo_tbl w | video \<Rightarrow> video_tbl w)"

definition set_table :: "modelName \<Rightarrow> asset list \<Rightarrow> world \<Rightarrow> world" where
  "set_table m rows w = (case m of photo \<Rightarrow> w\<lparr>photo_tbl := rows\<rparr> | video \<Rightarrow> w\<lparr>video_tbl := rows\<rparr>)"

text \<open>
  The \<open>where\<close> clauses: none (\<open>{}\<close>), \<open>{tags: {has: t}}\<close> and
  \<open>{tags: {hasSome: ts}}\<close>. No clause of server.js mentions \<open>deletedAt\<close>.
\<close>

datatype whereClause = NoFilter | Has string | HasSome "string list"

fun matches :: "whereClause \<Rightarrow> asset \<Rightarrow> bool" where
  "matches NoFilter a = True"
| "matches (Has t) a = (t \<in> set (tags a))"
| "matches (HasSome ts) a = list_ex (\<lambda>t. t \<in> set (tags a)) ts"

datatype prismaQuery = FindUnique string | FindMany whereClause

datatype result = Row "asset option" | Rows "asset list"

definition findUnique :: "modelName \<Rightarrow> string \<Rightarrow> world \<Rightarrow> asset option \<times> world" where
  "findUnique m i w =
     (find (\<lambda>a. asset_id a = i) (table m w), record_call (Prisma m ''findUnique'') w)"

definition findMany :: "modelName \<Rightarrow> whereClause \<Rightarrow> world \<Rightarrow> asset list \<times> world" where
  "findMany m wh w =
     (filter (matches wh) (table m w), record_call (Prisma m ''findMany'') w)"

definition prisma_run :: "modelName \<Rightarrow> prismaQuery \<Rightarrow> world \<Rightarrow> result \<times> world" where
  "prisma_run m q w =
     (case q of
        FindUnique i \<Rightarrow> (case findUnique m i w of (r, w') \<Rightarrow> (Row r, w'))
      | FindMany wh \<Rightarrow> (case findMany m wh w of (rs, w') \<Rightarrow> (Rows rs, w')))"

section \<open>The error handler and fetchAndCache\<close>

text \<open>
  \<open>next(err)\<close> ends in \<open>errorHandler\<close>: status \<open>err.status || 500\<close>, and the
  error's own message in the body. Only the object built in the video delete handler
  carries a status.
\<close>

fun errorHandler :: "err \<Rightarrow> response" where
  "errorHandler (HttpError s m) =
     \<lparr>status = (if s = 0 then 500 else s),
      body = Error (if m = [] then ''Internal Server Error'' else m)\<rparr>"
| "errorHandler e = \<lparr>status = 500, body = ErrorOf e\<rparr>"

definition not_found_result :: "result \<Rightarrow> bool" where
  "not_found_result r = (case r of Row None \<Rightarrow> True | Row (Some a) \<Rightarrow> False | Rows rs \<Rightarrow> rs = [])"

definition stringify :: "result \<Rightarrow> json" where
  "stringify r = (case r of Row (Some a) \<Rightarrow> JAsset a | Row None \<Rightarrow> JAssets [] | Rows rs \<Rightarrow> JAssets rs)"

text \<open>
  \<open>fetchAndCache(modelName, identifier, redisKey, prismaQuery, res, next)\<close>; the
  \<open>identifier\<close> argument is not used by its body. Any rejected \<open>await\<close> goes to
  \<open>next(err)\<close>.
\<close>

definition fetchAndCache :: "modelName \<Rightarrow> string \<Rightarrow> prismaQuery \<Rightarrow> world \<Rightarrow> response \<times> world" where
  "fetchAndCache m redisKey prismaQuery w =
     (case redis_get redisKey w of
        (Inl e, w1) \<Rightarrow> (errorHandler e, w1)
      | (Inr (Some data), w1) \<Rightarrow> (\<lparr>status = 200, body = Json data\<rparr>, w1)
      | (Inr None, w1) \<Rightarrow>
          (case prisma_run m prismaQuery w1 of
             (r, w2) \<Rightarrow>
               if not_found_result r
               then (\<lparr>status = 404, body = Error (modelName_str m @ '' not found'')\<rparr>, w2)
               else
                 (case redis_setEx redisKey 3600 (stringify r) w2 of
                    (Inl e, w3) \<Rightarrow> (errorHandler e, w3)
                  | (Inr u, w3) \<Rightarrow> (\<lparr>status = 200, body = Json (stringify r)\<rparr>, w3))))"

section \<open>Route handlers that read through the cache\<close>

text \<open>
  Each handler is a function from its request parameters and the world to the response
  and the world afterwards. server.js registers three handlers for GET /v1/videos and two
  for DELETE /v1/videos/:id; Express runs the first registered handler that answers, and
  every one of them is modelled here under a name of its own.
\<close>

text \<open>GET /v1/photos/:id\<close>

definition get_photo_by_id :: "jsval \<Rightarrow> world \<Rightarrow> response \<times> world" where
  "get_photo_by_id idv w =
     (if \<not> truthy idv \<or> \<not> is_string idv
      then (\<lparr>status = 400, body = Error ''Invalid photo ID''\<rparr>, w)
      else fetchAndCache photo (''photos:id:'' @ str_of idv) (FindUnique (str_of idv)) w)"

subsection \<open>String operations of the tag handlers\<close>

text \<open>
  \<open>s.split(",")\<close>: the pieces between the separators, so the result is never empty
  and no piece contains the separator.
\<close>

fun split_on :: "char \<Rightarrow> string \<Rightarrow> string list" where
  "split_on c [] = [[]]"
| "split_on c (x # xs) =
     (if x = c then [] # split_on c xs
      else (case split_on c xs of [] \<Rightarrow> [[x]] | y # ys \<Rightarrow> (x # y) # ys))"

text \<open>\<open>String.prototype.trim\<close> on 8-bit characters: white space and line terminators.\<close>

definition is_space :: "char \<Rightarrow> bool" where
  "is_space c = (c \<in> set [CHR 0x09, CHR 0x0A, CHR 0x0B, CHR 0x0C, CHR 0x0D, CHR 0x20, CHR 0xA0])"

definition trim :: "string \<Rightarrow> string" where
  "trim s = rev (dropWhile is_space (rev (dropWhile is_space s)))"

text \<open>\<open>xs.join(sep)\<close>\<close>

fun join :: "string \<Rightarrow> string list \<Rightarrow> string" where
  "join sep [] = []"
| "join sep [x] = x"
| "join sep (x # y # ys) = x @ sep @ join sep (y # ys)"

definition tagList_of :: "string \<Rightarrow> string list" where
  "tagList_of ts = map trim (split_on CHR '','' ts)"

definition tags_redisKey :: "string \<Rightarrow> string \<Rightarrow> string" where
  "tags_redisKey kind ts = kind @ '':tags:'' @ join '','' (tagList_of ts)"

text \<open>GET /v1/photos?tags=...\<close>

definition get_photos_by_tags :: "jsval \<Rightarrow> world \<Rightarrow> response \<times> world" where
  "get_photos_by_tags tagsv w =
     (if \<not> truthy tagsv \<or> \<not> is_string tagsv
      then (\<lparr>status = 400, body = Error ''Invalid tags''\<rparr>, w)
      else fetchAndCache photo (tags_redisKey ''photos'' (str_of tagsv))
             (FindMany (HasSome (tagList_of (str_of tagsv)))) w)"

text \<open>GET /v1/videos?tags=... (the second handler registered for that path)\<close>

definition get_videos_by_tags :: "jsval \<Rightarrow> world \<Rightarrow> response \<times> world" where
  "get_videos_by_tags tagsv w =
     (if \<not> truthy tagsv
      then (\<lparr>status = 400, body = Error ''Tags query parameter is required''\<rparr>, w)
      else if \<not> is_string tagsv
      then (\<lparr>status = 400, body = Error ''Tags should be a comma-separated string''\<rparr>, w)
      else fetchAndCache video (tags_redisKey ''videos'' (str_of tagsv))
             (FindMany (HasSome (tagList_of (str_of tagsv)))) w)"

section \<open>Listings that do not use the cache\<close>

text \<open>GET /v1/videos (the first handler registered for that path): every row.\<close>

definition get_all_videos :: "world \<Rightarrow> response \<times> world" where
  "get_all_videos w =
     (case findMany video NoFilter w of
        (vs, w1) \<Rightarrow> (\<lparr>status = 200, body = AllVideos vs (length vs)\<rparr>, w1))"

subsection \<open>The paged listing\<close>

text \<open>
  JavaScript numbers are IEEE doubles. A double holds every integer of magnitude up to
  \<open>2 ^ 53\<close> exactly, and sums, differences and products of such integers are exact
  as long as the result stays in that range. A number is NaN, or an integer in that
  range, or the double that rounding gives for an integer \<open>v\<close> beyond that range:
  \<open>Inexact v\<close>. The rounded value itself is not computed; it has the sign of
  \<open>v\<close> and differs from \<open>v\<close> by a small fraction of \<open>v\<close>.
\<close>

datatype number = NaN | Num int | Inexact int

definition exact :: "int \<Rightarrow> bool" where
  "exact v = (\<bar>v\<bar> \<le> 2 ^ 53)"

definition to_number :: "int \<Rightarrow> number" where
  "to_number v = (if exact v then Num v else Inexact v)"

text \<open>The test \<open>x > 0\<close> on a number.\<close>

fun positive :: "number \<Rightarrow> bool" where
  "positive NaN = False"
| "positive (Num n) = (0 < n)"
| "positive (Inexact v) = (0 < v)"

text \<open>
  Prisma takes \<open>skip\<close> and \<open>take\<close> as 64-bit integers. When the integer a
  rounded double came from has magnitude \<open>2 ^ 64\<close> or more, the double is outside
  that range (or infinite) and Prisma rejects it.
\<close>

definition beyond_int64 :: "int \<Rightarrow> bool" where
  "beyond_int64 v = (2 ^ 64 \<le> \<bar>v\<bar>)"

text \<open>
  \<open>parseInt(s, 10)\<close>: leading white space, an optional sign, then the longest run of
  decimal digits; NaN when there is no digit, else the double nearest to their value.
\<close>

definition is_digit :: "char \<Rightarrow> bool" where
  "is_digit c = (c \<in> set ''0123456789'')"

definition digit_val :: "char \<Rightarrow> int" where
  "digit_val c = int (of_char c) - 48"

definition digits_val :: "string \<Rightarrow> int" where
  "digits_val ds = foldl (\<lambda>acc d. 10 * acc + digit_val d) 0 ds"

definition parseInt :: "string \<Rightarrow> number" where
  "parseInt s =
     (let s1 = dropWhile is_space s;
          neg = (case s1 of [] \<Rightarrow> False | c # r \<Rightarrow> c = CHR ''-'');
          s2 = (case s1 of [] \<Rightarrow> [] | c # r \<Rightarrow> if c = CHR ''-'' \<or> c = CHR ''+'' then r else s1);
          ds = takeWhile is_digit s2
      in if ds = [] then NaN
         else to_number (if neg then - digits_val ds else digits_val ds))"

text \<open>
  With \<open>skip\<close> or \<open>take\<close> and no \<open>orderBy\<close>, Prisma orders the rows by the
  primary key, ascending. The order is the database's; sorting is by insertion.
\<close>

fun insert_by :: "('a \<Rightarrow> 'a \<Rightarrow> bool) \<Rightarrow> 'a \<Rightarrow> 'a list \<Rightarrow> 'a list" where
  "insert_by le x [] = [x]"
| "insert_by le x (y # ys) = (if le x y then x # y # ys else y # insert_by le x ys)"

definition sort_by :: "('a \<Rightarrow> 'a \<Rightarrow> bool) \<Rightarrow> 'a list \<Rightarrow> 'a list" where
  "sort_by le xs = foldr (insert_by le) xs []"

definition by_id :: "world \<Rightarrow> asset list \<Rightarrow> asset list" where
  "by_id w rows = sort_by (\<lambda>a b. collation w (asset_id a) (asset_id b)) rows"

text \<open>
  \<open>findMany({where, skip, take})\<close> on the ordered rows. Prisma rejects a
  negative \<open>skip\<close>; a negative \<open>take\<close> counts from the end of the list.
\<close>

definition paginate :: "int \<Rightarrow> int \<Rightarrow> 'a list \<Rightarrow> err + 'a list" where
  "paginate skip tk xs =
     (if skip < 0 then Inl (PrismaError ''PrismaClientValidationError'')
      else if 0 \<le> tk then Inr (take (nat tk) (drop (nat skip) xs))
      else Inr (rev (take (nat (- tk)) (drop (nat skip) (rev xs)))))"

definition count :: "modelName \<Rightarrow> whereClause \<Rightarrow> world \<Rightarrow> nat \<times> world" where
  "count m wh w =
     (length (filter (matches wh) (table m w)), record_call (Prisma m ''count'') w)"

text \<open>\<open>Math.ceil(a / b)\<close> for \<open>b \<noteq> 0\<close>.\<close>

definition ceil_div :: "int \<Rightarrow> int \<Rightarrow> int" where
  "ceil_div a b = - ((- a) div b)"

text \<open>
  GET /v1/videos?page&limit&tag (the third handler registered for that path). The
  query parameters are absent or strings; \<open>page\<close> defaults to 1 and \<open>limit\<close>
  to 10 when absent. A \<open>limit\<close> that is NaN and not empty reaches Prisma as
  \<open>take: NaN\<close>, which it rejects. The handler is followed where every number it
  hands to Prisma or puts into the response is an integer that a double holds exactly
  (then \<open>skip\<close> and \<open>take\<close> are far inside Prisma's 64-bit range, and the
  rounded quotient \<open>totalVideos / pageSize\<close> has the ceiling of the exact one), and
  where Prisma rejects \<open>skip\<close> or \<open>take\<close> whatever the rounding gives: a
  negative \<open>skip\<close>, or a value outside the 64-bit range. Where a rounded double
  inside that range would reach Prisma and the response, the answer is left open:
  \<open>None\<close>.
\<close>

definition get_videos_paged ::
  "string option \<Rightarrow> string option \<Rightarrow> string option \<Rightarrow> world \<Rightarrow> (response \<times> world) option" where
  "get_videos_paged page limit tag w =
     (let parsedPage = (case page of None \<Rightarrow> Num 1 | Some s \<Rightarrow> parseInt s);
          currentPage = (if positive parsedPage then parsedPage else Num 1);
          pageSize = (case limit of None \<Rightarrow> Num 10 | Some s \<Rightarrow> parseInt s);
          wh = (case tag of None \<Rightarrow> NoFilter | Some t \<Rightarrow> if t = [] then NoFilter else Has (trim t));
          isFetchAll = (limit = Some [] \<or> pageSize = Num 0);
          w1 = record_call (Prisma video ''findMany'') w
      in case count video wh w1 of
           (n_total, w2) \<Rightarrow>
             if isFetchAll
             then Some (\<lparr>status = 200,
                         body = Page \<lparr>videos = filter (matches wh) (table video w),
                                      totalVideos = int n_total, totalPages = 1,
                                      currentPage = None,
                                      hasNextPage = False, hasPreviousPage = False\<rparr>\<rparr>, w2)
             else
               (case pageSize of
                  NaN \<Rightarrow> Some (errorHandler (PrismaError ''PrismaClientValidationError''), w2)
                | Inexact u \<Rightarrow>
                    if beyond_int64 u
                    then Some (errorHandler (PrismaError ''PrismaClientValidationError''), w2)
                    else None
                | Num n \<Rightarrow>
                    (case currentPage of
                       NaN \<Rightarrow> None
                     | Inexact v \<Rightarrow>
                         if (v - 1) * n < 0 \<or> beyond_int64 ((v - 1) * n)
                         then Some (errorHandler (PrismaError ''PrismaClientValidationError''), w2)
                         else None
                     | Num c \<Rightarrow>
                         if exact ((c - 1) * n)
                         then
                           if exact (int n_total + \<bar>n\<bar>)
                           then
                             (case paginate ((c - 1) * n) n
                                     (by_id w (filter (matches wh) (table video w))) of
                                Inl e \<Rightarrow> Some (errorHandler e, w2)
                              | Inr vs \<Rightarrow>
                                  Some (\<lparr>status = 200,
                                         body = Page \<lparr>videos = vs, totalVideos = int n_total,
                                                      totalPages = ceil_div (int n_total) n,
                                                      currentPage = Some c,
                                                      hasNextPage = (c < ceil_div (int n_total) n),
                                                      hasPreviousPage = (c > 1)\<rparr>\<rparr>, w2))
                           else None
                         else if (c - 1) * n < 0 \<or> beyond_int64 ((c - 1) * n)
                         then Some (errorHandler (PrismaError ''PrismaClientValidationError''), w2)
                         else None)))"

subsection \<open>Which handler answers GET /v1/videos\<close>

text \<open>
  The query of a GET /v1/videos request: \<open>tags\<close>, \<open>page\<close>, \<open>limit\<close> and
  \<open>tag\<close>.
\<close>

record videos_query =
  q_tags :: jsval
  q_page :: "string option"
  q_limit :: "string option"
  q_tag :: "string option"

text \<open>
  Express keeps the handlers of a path in the order of their registration and runs the
  first; the next one runs only if the handler before it calls \<open>next()\<close> with no
  error. A handler answers (directly, or through \<open>next(err)\<close> and the error handler),
  or passes the request on, or its answer is left open by the model. When every handler
  has passed, the catch-all route answers 404.
\<close>

datatype reply = Answer response world | Pass world | Open

fun answered :: "response \<times> world \<Rightarrow> reply" where
  "answered (r, w) = Answer r w"

fun dispatch :: "(videos_query \<Rightarrow> world \<Rightarrow> reply) list \<Rightarrow> videos_query \<Rightarrow> world \<Rightarrow> reply" where
  "dispatch [] q w = Answer \<lparr>status = 404, body = Error ''Route not found''\<rparr> w"
| "dispatch (h # hs) q w =
     (case h q w of
        Answer r w' \<Rightarrow> Answer r w'
      | Pass w' \<Rightarrow> dispatch hs q w'
      | Open \<Rightarrow> Open)"

text \<open>
  The three handlers that server.js registers for GET /v1/videos, at lines 211, 307 and
  421. None of them calls \<open>next()\<close> without an error.
\<close>

definition videos_handlers :: "(videos_query \<Rightarrow> world \<Rightarrow> reply) list" where
  "videos_handlers =
     [\<lambda>q w. answered (get_all_videos w),
      \<lambda>q w. answered (get_videos_by_tags (q_tags q) w),
      \<lambda>q w. (case get_videos_paged (q_page q) (q_limit q) (q_tag q) w of
                None \<Rightarrow> Open
              | Some rw \<Rightarrow> answered rw)]"

definition GET_videos :: "videos_query \<Rightarrow> world \<Rightarrow> reply" where
  "GET_videos q w = dispatch videos_handlers q w"

section \<open>Uploads\<close>

text \<open>
  The multipart request after multer: the stored file's name when a file was sent, and
  the text fields \<open>tags\<close> and \<open>imageId\<close> of the body when present.
\<close>

record upload_req =
  req_file :: "string option"
  body_tags :: "string option"
  body_imageId :: "string option"

text \<open>
  \<open>JSON.parse(tags)\<close> as Prisma receives it for the \<open>String[]\<close> column: the
  parse throws, or yields something that is not an array of strings, or yields the tags.
  The parser is an argument of the upload handlers.
\<close>

datatype parsed = ParseThrows | NotStringArray | TagArray "string list"

text \<open>
  \<open>create\<close>: the primary key is unique, so a row whose id is present is rejected
  (P2002). The new row gets the column defaults.
\<close>

definition create :: "modelName \<Rightarrow> string \<Rightarrow> string \<Rightarrow> string list \<Rightarrow> world \<Rightarrow> (err + asset) \<times> world" where
  "create m i u ts w =
     (if list_ex (\<lambda>b. asset_id b = i) (table m w)
      then (Inl (PrismaError ''P2002''), record_call (Prisma m ''create'') w)
      else
        (let a = \<lparr>asset_id = i, url = u, tags = ts, title = [], createdAt = clock w,
                  updatedAt = clock w, deletedAt = None\<rparr>
         in (Inr a, set_table m (table m w @ [a]) (record_call (Prisma m ''create'') w))))"

definition present :: "string option \<Rightarrow> bool" where
  "present v = (case v of None \<Rightarrow> False | Some s \<Rightarrow> s \<noteq> [])"

text \<open>
  POST /v1/photos/upload. \<open>cuid\<close> is the id the \<open>@default(cuid())\<close> generator
  yields when the request supplies none.
\<close>

definition upload_photo :: "(string \<Rightarrow> parsed) \<Rightarrow> string \<Rightarrow> upload_req \<Rightarrow> world \<Rightarrow> response \<times> world" where
  "upload_photo JSON_parse cuid req w =
     (case req_file req of
        None \<Rightarrow> (\<lparr>status = 400, body = Error ''Photo file is required''\<rparr>, w)
      | Some filename \<Rightarrow>
          if \<not> present (body_tags req)
          then (\<lparr>status = 400, body = Error ''Tags are required''\<rparr>, w)
          else
            (case count photo NoFilter w of
               (photoCount, w1) \<Rightarrow>
                 if photoCount \<ge> 50
                 then (\<lparr>status = 400, body = Error ''Photo storage limit reached (50)''\<rparr>, w1)
                 else
                   (case (if present (body_imageId req)
                          then findUnique photo (the (body_imageId req)) w1
                          else (None, w1)) of
                      (Some existingPhoto, w2) \<Rightarrow>
                        (\<lparr>status = 400, body = Error ''Photo ID already exists''\<rparr>, w2)
                    | (None, w2) \<Rightarrow>
                        (case JSON_parse (the (body_tags req)) of
                           ParseThrows \<Rightarrow> (errorHandler SyntaxError, w2)
                         | NotStringArray \<Rightarrow>
                             (errorHandler (PrismaError ''PrismaClientValidationError''),
                              record_call (Prisma photo ''create'') w2)
                         | TagArray ts \<Rightarrow>
                             (case create photo
                                     (case body_imageId req of None \<Rightarrow> cuid | Some i \<Rightarrow> i)
                                     (''/uploads/'' @ filename) ts w2 of
                                (Inl e, w3) \<Rightarrow> (errorHandler e, w3)
                              | (Inr newPhoto, w3) \<Rightarrow>
                                  (\<lparr>status = 201, body = Json (JAsset newPhoto)\<rparr>, w3))))))"

text \<open>POST /v1/videos/upload: no caller-supplied id.\<close>

definition upload_video :: "(string \<Rightarrow> parsed) \<Rightarrow> string \<Rightarrow> upload_req \<Rightarrow> world \<Rightarrow> response \<times> world" where
  "upload_video JSON_parse cuid req w =
     (case req_file req of
        None \<Rightarrow> (\<lparr>status = 400, body = Error ''Video file is required''\<rparr>, w)
      | Some filename \<Rightarrow>
          if \<not> present (body_tags req)
          then (\<lparr>status = 400, body = Error ''Tags are required''\<rparr>, w)
          else
            (case count video NoFilter w of
               (videoCount, w1) \<Rightarrow>
                 if videoCount \<ge> 20
                 then (\<lparr>status = 400, body = Error ''Video storage limit reached (20)''\<rparr>, w1)
                 else
                   (case JSON_parse (the (body_tags req)) of
                      ParseThrows \<Rightarrow> (errorHandler SyntaxError, w1)
                    | NotStringArray \<Rightarrow>
                        (errorHandler (PrismaError ''PrismaClientValidationError''),
                         record_call (Prisma video ''create'') w1)
                    | TagArray ts \<Rightarrow>
                        (case create video cuid (''/uploads/'' @ filename) ts w1 of
                           (Inl e, w2) \<Rightarrow> (errorHandler e, w2)
                         | (Inr newVideo, w2) \<Rightarrow>
                             (\<lparr>status = 201, body = Json (JAsset newVideo)\<rparr>, w2)))))"

section \<open>Soft delete\<close>

text \<open>
  \<open>update({where: {id}, data: {deletedAt: new Date()}})\<close>. Prisma throws P2025 when
  no row has the id; \<open>@updatedAt\<close> refreshes \<open>updatedAt\<close> on every update.
\<close>

definition mark_deleted :: "nat \<Rightarrow> asset \<Rightarrow> asset" where
  "mark_deleted t a = a\<lparr>deletedAt := Some t, updatedAt := t\<rparr>"

definition update_deletedAt :: "modelName \<Rightarrow> string \<Rightarrow> world \<Rightarrow> (err + asset) \<times> world" where
  "update_deletedAt m i w =
     (case find (\<lambda>a. asset_id a = i) (table m w) of
        None \<Rightarrow> (Inl (PrismaError ''P2025''), record_call (Prisma m ''update'') w)
      | Some a \<Rightarrow>
          (Inr (mark_deleted (clock w) a),
           set_table m
             (map (\<lambda>b. if asset_id b = i then mark_deleted (clock w) b else b) (table m w))
             (record_call (Prisma m ''update'') w)))"

text \<open>
  DELETE /v1/photos/:id. The test \<open>!deletedPhoto\<close> after the update never holds: the
  update returns a row or throws.
\<close>

definition delete_photo :: "jsval \<Rightarrow> world \<Rightarrow> response \<times> world" where
  "delete_photo idv w =
     (if \<not> truthy idv \<or> \<not> is_string idv
      then (\<lparr>status = 400, body = Error ''Invalid photo ID''\<rparr>, w)
      else
        (case update_deletedAt photo (str_of idv) w of
           (Inr deletedPhoto, w1) \<Rightarrow> (\<lparr>status = 200, body = Json (JAsset deletedPhoto)\<rparr>, w1)
         | (Inl e, w1) \<Rightarrow>
             if e = PrismaError ''P2025''
             then (\<lparr>status = 404, body = Error ''Photo not found''\<rparr>, w1)
             else (errorHandler e, w1)))"

text \<open>DELETE /v1/videos/:id, the first handler registered for that path.\<close>

definition delete_video_first :: "jsval \<Rightarrow> world \<Rightarrow> response \<times> world" where
  "delete_video_first idv w =
     (if \<not> truthy idv \<or> \<not> is_string idv
      then (\<lparr>status = 400, body = Error ''Invalid video ID''\<rparr>, w)
      else
        (case update_deletedAt video (str_of idv) w of
           (Inr deletedVideo, w1) \<Rightarrow>
             (\<lparr>status = 200, body = Deleted ''Video deleted successfully'' deletedVideo\<rparr>, w1)
         | (Inl e, w1) \<Rightarrow>
             if e = PrismaError ''P2025''
             then (\<lparr>status = 404, body = Error ''Video not found''\<rparr>, w1)
             else (errorHandler e, w1)))"

text \<open>
  DELETE /v1/videos/:id, the second handler registered for that path: P2025 is replaced
  by an object with status 404 and handed to \<open>next\<close>.
\<close>

definition delete_video :: "jsval \<Rightarrow> world \<Rightarrow> response \<times> world" where
  "delete_video idv w =
     (if \<not> truthy idv \<or> \<not> is_string idv
      then (\<lparr>status = 400, body = Error ''Invalid video ID''\<rparr>, w)
      else
        (case update_deletedAt video (str_of idv) w of
           (Inr deletedVideo, w1) \<Rightarrow> (\<lparr>status = 200, body = Json (JAsset deletedVideo)\<rparr>, w1)
         | (Inl e, w1) \<Rightarrow>
             (errorHandler (if e = PrismaError ''P2025'' then HttpError 404 ''Video not found'' else e),
              w1)))"

section \<open>Example data\<close>

definition example_photo :: asset where
  "example_photo =
     \<lparr>asset_id = ''x'', url = ''/uploads/f.png'', tags = [''a'', ''b''], title = [],
      createdAt = 1, updatedAt = 1, deletedAt = None\<rparr>"

definition example_tombstone :: asset where
  "example_tombstone = mark_deleted 3 example_photo"

text \<open>Ids compared character by character, by character code.\<close>

fun bytewise :: "string \<Rightarrow> string \<Rightarrow> bool" where
  "bytewise [] ys = True"
| "bytewise (x # xs) [] = False"
| "bytewise (x # xs) (y # ys) =
     ((of_char x :: nat) < of_char y \<or> (x = y \<and> bytewise xs ys))"

text \<open>One live photo, one soft-deleted video, an empty cache that is reachable.\<close>

definition example_world :: world where
  "example_world =
     \<lparr>photo_tbl = [example_photo], video_tbl = [example_tombstone], collation = bytewise,
      redis = Map.empty,
      redis_get_fails = False, redis_setEx_fails = False, clock = 5, calls = []\<rparr>"

text \<open>The same world with the Redis client failing on \<open>get\<close>.\<close>

definition cache_down_world :: world where
  "cache_down_world = example_world\<lparr>redis_get_fails := True\<rparr>"

text \<open>The example photo looked up (and so cached), then soft-deleted.\<close>

definition cached_world :: world where
  "cached_world = snd (get_photo_by_id (Str ''x'') example_world)"

definition deleted_world :: world where
  "deleted_world = snd (delete_photo (Str ''x'') cached_world)"

text \<open>Rows with pairwise different ids, and worlds holding a given number of them.\<close>

definition numbered :: "nat \<Rightarrow> asset" where
  "numbered n = example_photo\<lparr>asset_id := replicate n CHR ''v''\<rparr>"

definition videos_world :: "nat \<Rightarrow> world" where
  "videos_world n = example_world\<lparr>video_tbl := map numbered [1..<Suc n]\<rparr>"

definition photos_world :: "nat \<Rightarrow> world" where
  "photos_world n = example_world\<lparr>photo_tbl := map numbered [1..<Suc n]\<rparr>"

text \<open>The request for page 2 of size 10.\<close>

definition page_two_query :: videos_query where
  "page_two_query = \<lparr>q_tags = Undefined, q_page = Some ''2'', q_limit = Some ''10'', q_tag = None\<rparr>"

text \<open>A parser that accepts the text of the empty array only.\<close>

definition example_parse :: "string \<Rightarrow> parsed" where
  "example_parse s = (if s = ''[]'' then TagArray [] else ParseThrows)"

definition example_upload :: upload_req where
  "example_upload = \<lparr>req_file = Some ''1-2-f.png'', body_tags = Some ''[]'', body_imageId = None\<rparr>"

section \<open>Facts about the collaborators and fetchAndCache\<close>

lemmas world_defs =
  record_call_def table_def set_table_def redis_lookup_def redis_get_def redis_setEx_def
  findUnique_def findMany_def prisma_run_def not_found_result_def stringify_def

lemma redis_lookup_calls: "redis_lookup (w\<lparr>calls := c\<rparr>) k = redis_lookup w k"
  by (simp add: redis_lookup_def split: option.splits)

lemma table_calls: "table m (w\<lparr>calls := c\<rparr>) = table m w"
  by (cases m) (simp_all add: table_def)

lemma fetchAndCache_get_fails:
  "redis_get_fails w \<Longrightarrow>
   fetchAndCache m k q w = (\<lparr>status = 500, body = ErrorOf RedisError\<rparr>, record_call (Redis_get k) w)"
  by (simp add: fetchAndCache_def redis_get_def)

lemma fetchAndCache_hit:
  "\<not> redis_get_fails w \<Longrightarrow> redis_lookup w k = Some v \<Longrightarrow>
   fetchAndCache m k q w = (\<lparr>status = 200, body = Json v\<rparr>, record_call (Redis_get k) w)"
  by (simp add: fetchAndCache_def redis_get_def)

lemma fetchAndCache_miss_absent:
  "\<not> redis_get_fails w \<Longrightarrow> redis_lookup w k = None \<Longrightarrow>
   find (\<lambda>a. asset_id a = i) (table m w) = None \<Longrightarrow>
   fetchAndCache m k (FindUnique i) w =
     (\<lparr>status = 404, body = Error (modelName_str m @ '' not found'')\<rparr>,
      w\<lparr>calls := calls w @ [Redis_get k, Prisma m ''findUnique'']\<rparr>)"
  by (cases m) (simp_all add: fetchAndCache_def world_defs)

lemma fetchAndCache_miss_found:
  "\<not> redis_get_fails w \<Longrightarrow> \<not> redis_setEx_fails w \<Longrightarrow> redis_lookup w k = None \<Longrightarrow>
   find (\<lambda>a. asset_id a = i) (table m w) = Some a \<Longrightarrow>
   fetchAndCache m k (FindUnique i) w =
     (\<lparr>status = 200, body = Json (JAsset a)\<rparr>,
      w\<lparr>calls := calls w @ [Redis_get k, Prisma m ''findUnique'', Redis_setEx k 3600],
        redis := (redis w)(k \<mapsto> (JAsset a, clock w + 3600))\<rparr>)"
  by (cases m) (simp_all add: fetchAndCache_def world_defs)

lemma fetchAndCache_first_call:
  "\<exists>rest. calls (snd (fetchAndCache m k q w)) = calls w @ Redis_get k # rest"
  by (cases m; cases q) (auto simp add: fetchAndCache_def world_defs split: option.splits)

section \<open>Lookup by id\<close>

text \<open>
  Claim C1. With the cache reachable, the photo lookup by id is \<open>fetchAndCache\<close> on
  the key \<open>photos:id:<id>\<close>, and \<open>fetchAndCache\<close> with a \<open>findUnique\<close> query (for
  either model and any key) first calls the cache under its key; on a hit it answers the
  cached value and makes no other call; on a miss with no row of that id it answers 404,
  changes nothing but the call log, and a repeat of the request queries the store again;
  on a miss with a row it stores the row under the key for 3600 seconds and answers it.
\<close>

theorem getById_read_through:
  assumes up: "\<not> redis_get_fails w" "\<not> redis_setEx_fails w" and i: "i \<noteq> []"
  shows "get_photo_by_id (Str i) w = fetchAndCache photo (''photos:id:'' @ i) (FindUnique i) w \<and>
    (\<exists>rest. calls (snd (fetchAndCache m k (FindUnique i) w)) = calls w @ Redis_get k # rest) \<and>
    (redis_lookup w k = Some v \<longrightarrow>
       fetchAndCache m k (FindUnique i) w =
         (\<lparr>status = 200, body = Json v\<rparr>, w\<lparr>calls := calls w @ [Redis_get k]\<rparr>)) \<and>
    (redis_lookup w k = None \<and> find (\<lambda>a. asset_id a = i) (table m w) = None \<longrightarrow>
       fetchAndCache m k (FindUnique i) w =
         (\<lparr>status = 404, body = Error (modelName_str m @ '' not found'')\<rparr>,
          w\<lparr>calls := calls w @ [Redis_get k, Prisma m ''findUnique'']\<rparr>) \<and>
       fetchAndCache m k (FindUnique i) (snd (fetchAndCache m k (FindUnique i) w)) =
         (\<lparr>status = 404, body = Error (modelName_str m @ '' not found'')\<rparr>,
          w\<lparr>calls := calls w @ [Redis_get k, Prisma m ''findUnique'',
                                   Redis_get k, Prisma m ''findUnique'']\<rparr>)) \<and>
    (redis_lookup w k = None \<and> find (\<lambda>a. asset_id a = i) (table m w) = Some a \<longrightarrow>
       fetchAndCache m k (FindUnique i) w =
         (\<lparr>status = 200, body = Json (JAsset a)\<rparr>,
          w\<lparr>calls := calls w @ [Redis_get k, Prisma m ''findUnique'', Redis_setEx k 3600],
            redis := (redis w)(k \<mapsto> (JAsset a, clock w + 3600))\<rparr>))"
proof -
  have handler:
    "get_photo_by_id (Str i) w = fetchAndCache photo (''photos:id:'' @ i) (FindUnique i) w"
    using i by (simp add: get_photo_by_id_def)
  have again:
    "fetchAndCache m k (FindUnique i) (w\<lparr>calls := calls w @ [Redis_get k, Prisma m ''findUnique'']\<rparr>) =
       (\<lparr>status = 404, body = Error (modelName_str m @ '' not found'')\<rparr>,
        w\<lparr>calls := calls w @ [Redis_get k, Prisma m ''findUnique'',
                                 Redis_get k, Prisma m ''findUnique'']\<rparr>)"
    if "redis_lookup w k = None" "find (\<lambda>a. asset_id a = i) (table m w) = None"
    using that up
      fetchAndCache_miss_absent [of "w\<lparr>calls := calls w @ [Redis_get k, Prisma m ''findUnique'']\<rparr>" k i m]
    by (simp add: redis_lookup_calls table_calls)
  show ?thesis
    using handler up again
    by (simp add: fetchAndCache_hit fetchAndCache_miss_absent fetchAndCache_miss_found
        fetchAndCache_first_call record_call_def)
qed

theorem getById_read_through_witness:
  "\<not> redis_get_fails example_world \<and> \<not> redis_setEx_fails example_world \<and>
   get_photo_by_id (Str ''x'') example_world =
     (\<lparr>status = 200, body = Json (JAsset example_photo)\<rparr>,
      example_world
        \<lparr>calls := [Redis_get ''photos:id:x'', Prisma photo ''findUnique'',
                   Redis_setEx ''photos:id:x'' 3600],
         redis := [''photos:id:x'' \<mapsto> (JAsset example_photo, 3605)]\<rparr>)"
proof -
  have up: "\<not> redis_get_fails example_world" "\<not> redis_setEx_fails example_world"
    by (simp_all add: example_world_def)
  have miss: "redis_lookup example_world ''photos:id:x'' = None"
    by (simp add: redis_lookup_def example_world_def)
  have row: "find (\<lambda>a. asset_id a = ''x'') (table photo example_world) = Some example_photo"
    by (simp add: table_def example_world_def example_photo_def)
  show ?thesis
    using up miss row
      getById_read_through [of example_world "''x''" photo "''photos:id:x''" _ example_photo]
    by (simp add: example_world_def)
qed

section \<open>Cache keys of the tag searches\<close>

lemma split_on_nonempty: "split_on c s \<noteq> []"
  by (induction s) (auto split: list.splits)

lemma split_on_pieces: "p \<in> set (split_on c s) \<Longrightarrow> c \<notin> set p"
  by (induction s arbitrary: p) (auto split: list.splits if_splits)

lemma split_on_free: "c \<notin> set x \<Longrightarrow> split_on c x = [x]"
  by (induction x) auto

lemma split_on_append: "c \<notin> set x \<Longrightarrow> split_on c (x @ c # r) = x # split_on c r"
  by (induction x) (auto split: list.splits)

lemma split_on_join:
  "xs \<noteq> [] \<Longrightarrow> \<forall>x\<in>set xs. c \<notin> set x \<Longrightarrow> split_on c (join [c] xs) = xs"
proof (induction "[c]" xs rule: join.induct)
  case 1
  then show ?case by simp
next
  case (2 x)
  then show ?case by (simp add: split_on_free)
next
  case (3 x y ys)
  then show ?case by (simp add: split_on_append)
qed

lemma set_trim: "set (trim s) \<subseteq> set s"
proof
  fix x assume "x \<in> set (trim s)"
  then have "x \<in> set (dropWhile is_space (rev (dropWhile is_space s)))"
    by (simp add: trim_def)
  then have "x \<in> set (rev (dropWhile is_space s))"
    by (rule set_dropWhileD)
  then have "x \<in> set (dropWhile is_space s)"
    by simp
  then show "x \<in> set s"
    by (rule set_dropWhileD)
qed

lemma tagList_of_nonempty: "tagList_of ts \<noteq> []"
  by (simp add: tagList_of_def split_on_nonempty)

lemma tagList_of_comma_free: "t \<in> set (tagList_of ts) \<Longrightarrow> CHR '','' \<notin> set t"
proof -
  assume "t \<in> set (tagList_of ts)"
  then obtain p where p: "p \<in> set (split_on CHR '','' ts)" and t: "t = trim p"
    by (auto simp: tagList_of_def)
  from p have "CHR '','' \<notin> set p" by (rule split_on_pieces)
  with t set_trim [of p] show ?thesis by blast
qed

lemma split_on_key: "split_on CHR '','' (join '','' (tagList_of ts)) = tagList_of ts"
  using split_on_join [of "tagList_of ts" "CHR '',''"] tagList_of_nonempty tagList_of_comma_free
  by blast

text \<open>
  Claim C4, as the code has it. The key of a tag search is the prefix, \<open>:tags:\<close> and
  the tags of the query in the order of the request (split at the commas, each one
  trimmed, joined by a comma again): nothing is sorted and no duplicate is dropped. So
  two queries get the same key exactly when their trimmed tag lists are the same list.
\<close>

theorem tags_redisKey_request_order:
  "tags_redisKey kind ts = kind @ '':tags:'' @ join '','' (map trim (split_on CHR '','' ts)) \<and>
   (tags_redisKey kind ts1 = tags_redisKey kind ts2 \<longleftrightarrow> tagList_of ts1 = tagList_of ts2)"
proof (intro conjI iffI)
  show "tags_redisKey kind ts = kind @ '':tags:'' @ join '','' (map trim (split_on CHR '','' ts))"
    by (simp add: tags_redisKey_def tagList_of_def)
next
  assume "tags_redisKey kind ts1 = tags_redisKey kind ts2"
  then have "join '','' (tagList_of ts1) = join '','' (tagList_of ts2)"
    by (simp add: tags_redisKey_def)
  then have "split_on CHR '','' (join '','' (tagList_of ts1)) =
             split_on CHR '','' (join '','' (tagList_of ts2))"
    by (rule arg_cong)
  then show "tagList_of ts1 = tagList_of ts2"
    by (simp only: split_on_key)
next
  assume "tagList_of ts1 = tagList_of ts2"
  then show "tags_redisKey kind ts1 = tags_redisKey kind ts2"
    by (simp add: tags_redisKey_def)
qed

theorem tags_redisKey_request_order_witness:
  "tags_redisKey ''photos'' ''a, b'' = tags_redisKey ''photos'' ''a,b '' \<and>
   tags_redisKey ''photos'' ''a,a'' \<noteq> tags_redisKey ''photos'' ''a''"
proof -
  have same: "tagList_of ''a, b'' = tagList_of ''a,b ''"
    by (simp add: tagList_of_def trim_def is_space_def)
  have other: "tagList_of ''a,a'' \<noteq> tagList_of ''a''"
    by (simp add: tagList_of_def trim_def is_space_def)
  show ?thesis
    using same other
      tags_redisKey_request_order [of "''photos''" "''a''" "''a, b''" "''a,b ''"]
      tags_redisKey_request_order [of "''photos''" "''a''" "''a,a''" "''a''"]
    by blast
qed

text \<open>
  The claim as the specification states it fails: \<open>b,a\<close> and \<open>a,b\<close> name the same
  set of tags and get different keys.
\<close>

theorem tags_redisKey_unsorted_counterexample:
  "set (tagList_of ''b,a'') = set (tagList_of ''a,b'') \<and>
   tags_redisKey ''photos'' ''b,a'' \<noteq> tags_redisKey ''photos'' ''a,b''"
  by (simp add: tags_redisKey_def tagList_of_def trim_def is_space_def insert_commute)

section \<open>Request validation\<close>

text \<open>
  Claim C8. A route id or a \<open>tags\<close> query that is falsy (missing, null, the empty
  string) or not a string is answered 400 by every handler that takes one, and the world
  is returned as it was: no call to Redis or Prisma is made.
\<close>

theorem validation_before_access:
  assumes bad: "\<not> truthy v \<or> \<not> is_string v"
  shows "get_photo_by_id v w = (\<lparr>status = 400, body = Error ''Invalid photo ID''\<rparr>, w) \<and>
         get_photos_by_tags v w = (\<lparr>status = 400, body = Error ''Invalid tags''\<rparr>, w) \<and>
         status (fst (get_videos_by_tags v w)) = 400 \<and> snd (get_videos_by_tags v w) = w \<and>
         delete_photo v w = (\<lparr>status = 400, body = Error ''Invalid photo ID''\<rparr>, w) \<and>
         delete_video v w = (\<lparr>status = 400, body = Error ''Invalid video ID''\<rparr>, w) \<and>
         delete_video_first v w = (\<lparr>status = 400, body = Error ''Invalid video ID''\<rparr>, w)"
  using bad
  by (auto simp: get_photo_by_id_def get_photos_by_tags_def get_videos_by_tags_def
      delete_photo_def delete_video_def delete_video_first_def)

theorem validation_before_access_witness:
  "get_photo_by_id (Str []) example_world = (\<lparr>status = 400, body = Error ''Invalid photo ID''\<rparr>, example_world) \<and>
   get_photo_by_id Null example_world = (\<lparr>status = 400, body = Error ''Invalid photo ID''\<rparr>, example_world) \<and>
   get_photos_by_tags (Str []) example_world = (\<lparr>status = 400, body = Error ''Invalid tags''\<rparr>, example_world) \<and>
   calls (snd (get_photos_by_tags (Arr [''a'']) example_world)) = []"
  using validation_before_access [of "Str []" example_world]
    validation_before_access [of Null example_world]
    validation_before_access [of "Arr [''a'']" example_world]
  by (simp add: example_world_def)

section \<open>Empty tag searches\<close>

lemma fetchAndCache_miss_empty:
  "\<not> redis_get_fails w \<Longrightarrow> redis_lookup w k = None \<Longrightarrow>
   filter (matches wh) (table m w) = [] \<Longrightarrow>
   fetchAndCache m k (FindMany wh) w =
     (\<lparr>status = 404, body = Error (modelName_str m @ '' not found'')\<rparr>,
      w\<lparr>calls := calls w @ [Redis_get k, Prisma m ''findMany'']\<rparr>)"
  by (cases m) (simp_all add: fetchAndCache_def world_defs)

text \<open>
  Claim C10. With the cache reachable, a tag search (photos or videos) that misses the
  cache and whose store query yields the empty list answers 404, not a success with an
  empty collection; the world changes in the call log only, so no cache entry is
  written, and a repeat of the query calls the store again.
\<close>

theorem empty_tag_listing_not_cached:
  assumes up: "\<not> redis_get_fails w" and ts: "ts \<noteq> []"
  shows "(redis_lookup w (tags_redisKey ''photos'' ts) = None \<and>
          filter (matches (HasSome (tagList_of ts))) (photo_tbl w) = [] \<longrightarrow>
            get_photos_by_tags (Str ts) w =
              (\<lparr>status = 404, body = Error ''photo not found''\<rparr>,
               w\<lparr>calls := calls w @ [Redis_get (tags_redisKey ''photos'' ts), Prisma photo ''findMany'']\<rparr>) \<and>
            get_photos_by_tags (Str ts) (snd (get_photos_by_tags (Str ts) w)) =
              (\<lparr>status = 404, body = Error ''photo not found''\<rparr>,
               w\<lparr>calls := calls w @ [Redis_get (tags_redisKey ''photos'' ts), Prisma photo ''findMany'',
                                        Redis_get (tags_redisKey ''photos'' ts), Prisma photo ''findMany'']\<rparr>)) \<and>
         (redis_lookup w (tags_redisKey ''videos'' ts) = None \<and>
          filter (matches (HasSome (tagList_of ts))) (video_tbl w) = [] \<longrightarrow>
            get_videos_by_tags (Str ts) w =
              (\<lparr>status = 404, body = Error ''video not found''\<rparr>,
               w\<lparr>calls := calls w @ [Redis_get (tags_redisKey ''videos'' ts), Prisma video ''findMany'']\<rparr>) \<and>
            get_videos_by_tags (Str ts) (snd (get_videos_by_tags (Str ts) w)) =
              (\<lparr>status = 404, body = Error ''video not found''\<rparr>,
               w\<lparr>calls := calls w @ [Redis_get (tags_redisKey ''videos'' ts), Prisma video ''findMany'',
                                        Redis_get (tags_redisKey ''videos'' ts), Prisma video ''findMany'']\<rparr>))"
proof -
  have twice:
    "fetchAndCache m k (FindMany wh) w =
       (\<lparr>status = 404, body = Error (modelName_str m @ '' not found'')\<rparr>,
        w\<lparr>calls := calls w @ [Redis_get k, Prisma m ''findMany'']\<rparr>) \<and>
     fetchAndCache m k (FindMany wh) (w\<lparr>calls := calls w @ [Redis_get k, Prisma m ''findMany'']\<rparr>) =
       (\<lparr>status = 404, body = Error (modelName_str m @ '' not found'')\<rparr>,
        w\<lparr>calls := calls w @ [Redis_get k, Prisma m ''findMany'', Redis_get k, Prisma m ''findMany'']\<rparr>)"
    if miss: "redis_lookup w k = None" and none: "filter (matches wh) (table m w) = []" for m k wh
  proof -
    let ?w1 = "w\<lparr>calls := calls w @ [Redis_get k, Prisma m ''findMany'']\<rparr>"
    have first: "fetchAndCache m k (FindMany wh) w =
        (\<lparr>status = 404, body = Error (modelName_str m @ '' not found'')\<rparr>, ?w1)"
      using up miss none by (rule fetchAndCache_miss_empty)
    have "fetchAndCache m k (FindMany wh) ?w1 =
        (\<lparr>status = 404, body = Error (modelName_str m @ '' not found'')\<rparr>,
         ?w1\<lparr>calls := calls ?w1 @ [Redis_get k, Prisma m ''findMany'']\<rparr>)"
      using up miss none
      by (intro fetchAndCache_miss_empty) (simp_all add: redis_lookup_calls table_calls)
    with first show ?thesis by simp
  qed
  show ?thesis
    using ts twice [of "tags_redisKey ''photos'' ts" "HasSome (tagList_of ts)" photo]
      twice [of "tags_redisKey ''videos'' ts" "HasSome (tagList_of ts)" video]
    by (simp add: get_photos_by_tags_def get_videos_by_tags_def table_def)
qed

theorem empty_tag_listing_not_cached_witness:
  "\<not> redis_get_fails example_world \<and>
   redis_lookup example_world (tags_redisKey ''photos'' ''zzz'') = None \<and>
   fst (findMany photo (HasSome (tagList_of ''zzz'')) example_world) = [] \<and>
   get_photos_by_tags (Str ''zzz'') example_world =
     (\<lparr>status = 404, body = Error ''photo not found''\<rparr>,
      example_world\<lparr>calls := [Redis_get ''photos:tags:zzz'', Prisma photo ''findMany'']\<rparr>) \<and>
   redis (snd (get_photos_by_tags (Str ''zzz'') example_world)) = Map.empty"
proof -
  have up: "\<not> redis_get_fails example_world"
    by (simp add: example_world_def)
  have miss: "redis_lookup example_world (tags_redisKey ''photos'' ''zzz'') = None"
    by (simp add: redis_lookup_def example_world_def)
  have none: "filter (matches (HasSome (tagList_of ''zzz''))) (photo_tbl example_world) = []"
    by (simp add: tagList_of_def trim_def is_space_def example_world_def example_photo_def)
  have key: "tags_redisKey ''photos'' ''zzz'' = ''photos:tags:zzz''"
    by (simp add: tags_redisKey_def tagList_of_def trim_def is_space_def)
  show ?thesis
    using up miss none empty_tag_listing_not_cached [of example_world "''zzz''"]
    by (simp add: key findMany_def table_def) (simp add: example_world_def)
qed

section \<open>Cache failure\<close>

lemma fetchAndCache_setEx_fails:
  "\<not> redis_get_fails w \<Longrightarrow> redis_setEx_fails w \<Longrightarrow> redis_lookup w k = None \<Longrightarrow>
   \<not> not_found_result (fst (prisma_run m q w)) \<Longrightarrow>
   fetchAndCache m k q w =
     (\<lparr>status = 500, body = ErrorOf RedisError\<rparr>,
      record_call (Redis_setEx k 3600) (snd (prisma_run m q (record_call (Redis_get k) w))))"
  by (cases m; cases q) (simp_all add: fetchAndCache_def world_defs split: option.splits)

text \<open>
  Claim C5, as the code has it. A failing cache call fails the request: when
  \<open>get\<close> fails, \<open>fetchAndCache\<close> answers 500 through the error handler and the
  store is not queried; when \<open>setEx\<close> fails after a miss with a result, the store has
  been queried, the answer is 500 all the same and the cache is unchanged. The photo
  lookup by id and both tag searches are \<open>fetchAndCache\<close> on a valid parameter.
\<close>

theorem cache_failure_fails_request:
  "(redis_get_fails w \<longrightarrow>
      fetchAndCache m k q w =
        (\<lparr>status = 500, body = ErrorOf RedisError\<rparr>, w\<lparr>calls := calls w @ [Redis_get k]\<rparr>)) \<and>
   (\<not> redis_get_fails w \<and> redis_setEx_fails w \<and> redis_lookup w k = None \<and>
    \<not> not_found_result (fst (prisma_run m q w)) \<longrightarrow>
      fetchAndCache m k q w =
        (\<lparr>status = 500, body = ErrorOf RedisError\<rparr>,
         record_call (Redis_setEx k 3600) (snd (prisma_run m q (record_call (Redis_get k) w)))) \<and>
      redis (snd (fetchAndCache m k q w)) = redis w) \<and>
   (i \<noteq> [] \<longrightarrow>
      get_photo_by_id (Str i) w = fetchAndCache photo (''photos:id:'' @ i) (FindUnique i) w \<and>
      get_photos_by_tags (Str i) w =
        fetchAndCache photo (tags_redisKey ''photos'' i) (FindMany (HasSome (tagList_of i))) w \<and>
      get_videos_by_tags (Str i) w =
        fetchAndCache video (tags_redisKey ''videos'' i) (FindMany (HasSome (tagList_of i))) w)"
proof (intro conjI impI)
  assume "redis_get_fails w"
  then show "fetchAndCache m k q w =
        (\<lparr>status = 500, body = ErrorOf RedisError\<rparr>, w\<lparr>calls := calls w @ [Redis_get k]\<rparr>)"
    by (simp add: fetchAndCache_get_fails record_call_def)
next
  assume a: "\<not> redis_get_fails w \<and> redis_setEx_fails w \<and> redis_lookup w k = None \<and>
    \<not> not_found_result (fst (prisma_run m q w))"
  then show eq: "fetchAndCache m k q w =
        (\<lparr>status = 500, body = ErrorOf RedisError\<rparr>,
         record_call (Redis_setEx k 3600) (snd (prisma_run m q (record_call (Redis_get k) w))))"
    by (simp add: fetchAndCache_setEx_fails)
  show "redis (snd (fetchAndCache m k q w)) = redis w"
    unfolding eq by (cases m; cases q) (simp_all add: world_defs)
qed (simp_all add: get_photo_by_id_def get_photos_by_tags_def get_videos_by_tags_def)

text \<open>
  The claim as the specification states it fails: the row is in the store, the cache
  \<open>get\<close> fails, and the request is answered 500 without a store query.
\<close>

theorem cache_failure_counterexample:
  "redis_get_fails cache_down_world \<and>
   fst (findUnique photo ''x'' cache_down_world) = Some example_photo \<and>
   get_photo_by_id (Str ''x'') cache_down_world =
     (\<lparr>status = 500, body = ErrorOf RedisError\<rparr>,
      cache_down_world\<lparr>calls := [Redis_get ''photos:id:x'']\<rparr>)"
  by (simp add: cache_down_world_def example_world_def example_photo_def get_photo_by_id_def
      fetchAndCache_def world_defs)

theorem cache_failure_fails_request_witness:
  "redis_get_fails cache_down_world \<and>
   fst (get_photos_by_tags (Str ''a'') cache_down_world) = \<lparr>status = 500, body = ErrorOf RedisError\<rparr>"
  using cache_failure_fails_request [of cache_down_world photo "tags_redisKey ''photos'' ''a''"
      "FindMany (HasSome (tagList_of ''a''))" "''a''"]
  by (simp add: cache_down_world_def example_world_def)

section \<open>Soft delete and the cache\<close>

lemma update_deletedAt_absent:
  "find (\<lambda>a. asset_id a = i) (table m w) = None \<Longrightarrow>
   update_deletedAt m i w = (Inl (PrismaError ''P2025''), w\<lparr>calls := calls w @ [Prisma m ''update'']\<rparr>)"
  by (simp add: update_deletedAt_def record_call_def)

lemma update_deletedAt_found:
  "find (\<lambda>a. asset_id a = i) (table m w) = Some a \<Longrightarrow>
   update_deletedAt m i w =
     (Inr (mark_deleted (clock w) a),
      set_table m (map (\<lambda>b. if asset_id b = i then mark_deleted (clock w) b else b) (table m w))
        (w\<lparr>calls := calls w @ [Prisma m ''update'']\<rparr>))"
  by (simp add: update_deletedAt_def record_call_def)

lemma table_set_table: "table m (set_table m rows w) = rows"
  by (cases m) (simp_all add: table_def set_table_def)

lemma redis_set_table: "redis (set_table m rows w) = redis w"
  by (cases m) (simp_all add: set_table_def)

lemma clock_set_table: "clock (set_table m rows w) = clock w"
  by (cases m) (simp_all add: set_table_def)

lemma mark_deleted_fields:
  "asset_id (mark_deleted t a) = asset_id a" "url (mark_deleted t a) = url a"
  "tags (mark_deleted t a) = tags a" "title (mark_deleted t a) = title a"
  "createdAt (mark_deleted t a) = createdAt a"
  "deletedAt (mark_deleted t a) = Some t" "updatedAt (mark_deleted t a) = t"
  by (simp_all add: mark_deleted_def)

lemma update_deletedAt_rows:
  "table m (snd (update_deletedAt m i w)) =
     map (\<lambda>b. if asset_id b = i then b\<lparr>deletedAt := Some (clock w), updatedAt := clock w\<rparr> else b)
       (table m w)"
proof (cases "find (\<lambda>a. asset_id a = i) (table m w)")
  case None
  then have "\<forall>b\<in>set (table m w). asset_id b \<noteq> i"
    by (simp add: find_None_iff)
  then have "map (\<lambda>b. if asset_id b = i then b\<lparr>deletedAt := Some (clock w), updatedAt := clock w\<rparr> else b)
       (table m w) = table m w"
    by (simp add: map_idI)
  with None show ?thesis
    by (simp add: update_deletedAt_absent table_calls)
next
  case (Some a)
  then show ?thesis
    by (simp add: update_deletedAt_found table_set_table mark_deleted_def)
qed

lemma update_deletedAt_other_table:
  "m' \<noteq> m \<Longrightarrow> table m' (snd (update_deletedAt m i w)) = table m' w"
  by (cases m; cases m') (simp_all add: update_deletedAt_def table_def set_table_def record_call_def
      split: option.splits)

lemma update_deletedAt_redis:
  "redis (snd (update_deletedAt m i w)) = redis w \<and> clock (snd (update_deletedAt m i w)) = clock w \<and>
   redis_get_fails (snd (update_deletedAt m i w)) = redis_get_fails w \<and>
   redis_setEx_fails (snd (update_deletedAt m i w)) = redis_setEx_fails w"
  by (cases m) (simp_all add: update_deletedAt_def set_table_def record_call_def split: option.splits)

lemma delete_worlds:
  assumes i: "i \<noteq> []"
  shows "snd (delete_photo (Str i) w) = snd (update_deletedAt photo i w)"
    and "snd (delete_video (Str i) w) = snd (update_deletedAt video i w)"
    and "snd (delete_video_first (Str i) w) = snd (update_deletedAt video i w)"
  using i
  by (simp_all add: delete_photo_def delete_video_def delete_video_first_def
      split: prod.splits sum.splits)

text \<open>
  Claim C9. A soft delete of an id that exists answers 200 with the row, whose
  \<open>deletedAt\<close> and \<open>updatedAt\<close> are the current time; the table afterwards is the
  old table with exactly these two fields rewritten in the rows of that id, so no row is
  removed and the ids, urls, tags and titles are as before; the other table is
  untouched. For an id that does not exist the answer is 404 and the table is unchanged.
\<close>

theorem soft_delete_frame:
  assumes i: "i \<noteq> []"
  shows
   "(find (\<lambda>b. asset_id b = i) (photo_tbl w) = Some a \<longrightarrow>
       fst (delete_photo (Str i) w) =
         \<lparr>status = 200, body = Json (JAsset (a\<lparr>deletedAt := Some (clock w), updatedAt := clock w\<rparr>))\<rparr>) \<and>
    (find (\<lambda>b. asset_id b = i) (photo_tbl w) = None \<longrightarrow>
       fst (delete_photo (Str i) w) = \<lparr>status = 404, body = Error ''Photo not found''\<rparr> \<and>
       photo_tbl (snd (delete_photo (Str i) w)) = photo_tbl w) \<and>
    photo_tbl (snd (delete_photo (Str i) w)) =
      map (\<lambda>b. if asset_id b = i then b\<lparr>deletedAt := Some (clock w), updatedAt := clock w\<rparr> else b)
        (photo_tbl w) \<and>
    video_tbl (snd (delete_photo (Str i) w)) = video_tbl w \<and>
    (find (\<lambda>b. asset_id b = i) (video_tbl w) = Some a \<longrightarrow>
       fst (delete_video (Str i) w) =
         \<lparr>status = 200, body = Json (JAsset (a\<lparr>deletedAt := Some (clock w), updatedAt := clock w\<rparr>))\<rparr> \<and>
       fst (delete_video_first (Str i) w) =
         \<lparr>status = 200,
          body = Deleted ''Video deleted successfully''
                   (a\<lparr>deletedAt := Some (clock w), updatedAt := clock w\<rparr>)\<rparr>) \<and>
    (find (\<lambda>b. asset_id b = i) (video_tbl w) = None \<longrightarrow>
       fst (delete_video (Str i) w) = \<lparr>status = 404, body = Error ''Video not found''\<rparr> \<and>
       fst (delete_video_first (Str i) w) = \<lparr>status = 404, body = Error ''Video not found''\<rparr> \<and>
       video_tbl (snd (delete_video (Str i) w)) = video_tbl w) \<and>
    video_tbl (snd (delete_video (Str i) w)) =
      map (\<lambda>b. if asset_id b = i then b\<lparr>deletedAt := Some (clock w), updatedAt := clock w\<rparr> else b)
        (video_tbl w) \<and>
    snd (delete_video_first (Str i) w) = snd (delete_video (Str i) w) \<and>
    photo_tbl (snd (delete_video (Str i) w)) = photo_tbl w \<and>
    map asset_id (photo_tbl (snd (delete_photo (Str i) w))) = map asset_id (photo_tbl w) \<and>
    map url (photo_tbl (snd (delete_photo (Str i) w))) = map url (photo_tbl w) \<and>
    map tags (photo_tbl (snd (delete_photo (Str i) w))) = map tags (photo_tbl w) \<and>
    map title (photo_tbl (snd (delete_photo (Str i) w))) = map title (photo_tbl w) \<and>
    map asset_id (video_tbl (snd (delete_video (Str i) w))) = map asset_id (video_tbl w) \<and>
    map url (video_tbl (snd (delete_video (Str i) w))) = map url (video_tbl w) \<and>
    map tags (video_tbl (snd (delete_video (Str i) w))) = map tags (video_tbl w) \<and>
    map title (video_tbl (snd (delete_video (Str i) w))) = map title (video_tbl w)"
proof -
  have p_found: "fst (delete_photo (Str i) w) =
         \<lparr>status = 200, body = Json (JAsset (a\<lparr>deletedAt := Some (clock w), updatedAt := clock w\<rparr>))\<rparr>"
    if "find (\<lambda>b. asset_id b = i) (photo_tbl w) = Some a"
    using that i update_deletedAt_found [of i photo w a]
    by (simp add: delete_photo_def table_def mark_deleted_def)
  have p_absent: "fst (delete_photo (Str i) w) = \<lparr>status = 404, body = Error ''Photo not found''\<rparr>"
    if "find (\<lambda>b. asset_id b = i) (photo_tbl w) = None"
    using that i update_deletedAt_absent [of i photo w]
    by (simp add: delete_photo_def table_def)
  have v_found: "fst (delete_video (Str i) w) =
         \<lparr>status = 200, body = Json (JAsset (a\<lparr>deletedAt := Some (clock w), updatedAt := clock w\<rparr>))\<rparr> \<and>
       fst (delete_video_first (Str i) w) =
         \<lparr>status = 200,
          body = Deleted ''Video deleted successfully''
                   (a\<lparr>deletedAt := Some (clock w), updatedAt := clock w\<rparr>)\<rparr>"
    if "find (\<lambda>b. asset_id b = i) (video_tbl w) = Some a"
    using that i update_deletedAt_found [of i video w a]
    by (simp add: delete_video_def delete_video_first_def table_def mark_deleted_def)
  have v_absent: "fst (delete_video (Str i) w) = \<lparr>status = 404, body = Error ''Video not found''\<rparr> \<and>
       fst (delete_video_first (Str i) w) = \<lparr>status = 404, body = Error ''Video not found''\<rparr>"
    if "find (\<lambda>b. asset_id b = i) (video_tbl w) = None"
    using that i update_deletedAt_absent [of i video w]
    by (simp add: delete_video_def delete_video_first_def table_def)
  have p_rows: "photo_tbl (snd (delete_photo (Str i) w)) =
      map (\<lambda>b. if asset_id b = i then b\<lparr>deletedAt := Some (clock w), updatedAt := clock w\<rparr> else b)
        (photo_tbl w)"
    using update_deletedAt_rows [of photo i w] delete_worlds(1) [OF i, of w]
    by (simp add: table_def)
  have v_rows: "video_tbl (snd (delete_video (Str i) w)) =
      map (\<lambda>b. if asset_id b = i then b\<lparr>deletedAt := Some (clock w), updatedAt := clock w\<rparr> else b)
        (video_tbl w)"
    using update_deletedAt_rows [of video i w] delete_worlds(2) [OF i, of w]
    by (simp add: table_def)
  have p_other: "video_tbl (snd (delete_photo (Str i) w)) = video_tbl w"
    using update_deletedAt_other_table [of video photo i w] delete_worlds(1) [OF i, of w]
    by (simp add: table_def)
  have v_other: "photo_tbl (snd (delete_video (Str i) w)) = photo_tbl w"
    using update_deletedAt_other_table [of photo video i w] delete_worlds(2) [OF i, of w]
    by (simp add: table_def)
  have same: "snd (delete_video_first (Str i) w) = snd (delete_video (Str i) w)"
    using delete_worlds(2,3) [OF i, of w] by simp
  have p_keep: "photo_tbl (snd (delete_photo (Str i) w)) = photo_tbl w"
    if "find (\<lambda>b. asset_id b = i) (photo_tbl w) = None"
    using that update_deletedAt_absent [of i photo w] delete_worlds(1) [OF i, of w]
    by (simp add: table_def)
  have v_keep: "video_tbl (snd (delete_video (Str i) w)) = video_tbl w"
    if "find (\<lambda>b. asset_id b = i) (video_tbl w) = None"
    using that update_deletedAt_absent [of i video w] delete_worlds(2) [OF i, of w]
    by (simp add: table_def)
  have proj: "map asset_id (map (\<lambda>b. if asset_id b = i then b\<lparr>deletedAt := d, updatedAt := t\<rparr> else b) xs) = map asset_id xs"
    "map url (map (\<lambda>b. if asset_id b = i then b\<lparr>deletedAt := d, updatedAt := t\<rparr> else b) xs) = map url xs"
    "map tags (map (\<lambda>b. if asset_id b = i then b\<lparr>deletedAt := d, updatedAt := t\<rparr> else b) xs) = map tags xs"
    "map title (map (\<lambda>b. if asset_id b = i then b\<lparr>deletedAt := d, updatedAt := t\<rparr> else b) xs) = map title xs"
    for d t and xs :: "asset list"
    by (induction xs) simp_all
  show ?thesis
    using p_found p_absent v_found v_absent p_other v_other same p_keep v_keep
    by (simp add: p_rows v_rows proj)
qed

theorem soft_delete_frame_witness:
  "fst (findUnique photo ''x'' example_world) = Some example_photo \<and>
   fst (delete_photo (Str ''x'') example_world) =
     \<lparr>status = 200, body = Json (JAsset (example_photo\<lparr>deletedAt := Some 5, updatedAt := 5\<rparr>))\<rparr> \<and>
   photo_tbl (snd (delete_photo (Str ''x'') example_world)) =
     [example_photo\<lparr>deletedAt := Some 5, updatedAt := 5\<rparr>] \<and>
   fst (findUnique photo ''q'' example_world) = None \<and>
   fst (delete_photo (Str ''q'') example_world) = \<lparr>status = 404, body = Error ''Photo not found''\<rparr> \<and>
   photo_tbl (snd (delete_photo (Str ''q'') example_world)) = [example_photo]"
proof -
  have row: "find (\<lambda>b. asset_id b = ''x'') (photo_tbl example_world) = Some example_photo"
    by (simp add: example_world_def example_photo_def)
  have norow: "find (\<lambda>b. asset_id b = ''q'') (photo_tbl example_world) = None"
    by (simp add: example_world_def example_photo_def)
  show ?thesis
    using row norow
      soft_delete_frame [of "''x''" example_world example_photo]
      soft_delete_frame [of "''q''" example_world example_photo]
    by (simp add: findUnique_def table_def) (simp add: example_world_def example_photo_def)
qed

lemma delete_redis:
  "redis (snd (delete_photo v w)) = redis w"
  "redis (snd (delete_video v w)) = redis w"
  "redis (snd (delete_video_first v w)) = redis w"
  using update_deletedAt_redis [of photo "str_of v" w] update_deletedAt_redis [of video "str_of v" w]
  by (auto simp: delete_photo_def delete_video_def delete_video_first_def split: prod.splits sum.splits)

lemma find_marked:
  "find (\<lambda>b. asset_id b = i)
     (map (\<lambda>b. if asset_id b = i then b\<lparr>deletedAt := d, updatedAt := t\<rparr> else b) xs) =
   map_option (\<lambda>b. b\<lparr>deletedAt := d, updatedAt := t\<rparr>) (find (\<lambda>b. asset_id b = i) xs)"
  by (induction xs) simp_all

lemma redis_lookup_tick:
  "redis w' = redis w \<Longrightarrow> clock w' = clock w \<Longrightarrow>
   redis_lookup (tick d w') k = redis_lookup (tick d w) k"
  by (simp add: redis_lookup_def tick_def split: option.splits)

text \<open>
  Claim C3, as the code has it. No delete handler touches the cache. After a soft delete
  of a photo, a lookup by id made \<open>d\<close> seconds later answers the entry cached before
  the delete for as long as that entry is live, and reads the tombstone from the store
  only once no entry is live (the entry's 3600 seconds have run out, or there was none).
\<close>

theorem soft_delete_leaves_cache:
  assumes up: "\<not> redis_get_fails w" "\<not> redis_setEx_fails w" and i: "i \<noteq> []"
  shows
   "redis (snd (delete_photo v w)) = redis w \<and>
    redis (snd (delete_video v w)) = redis w \<and>
    redis (snd (delete_video_first v w)) = redis w \<and>
    (redis_lookup (tick d w) (''photos:id:'' @ i) = Some c \<longrightarrow>
       fst (get_photo_by_id (Str i) (tick d (snd (delete_photo (Str i) w)))) =
         \<lparr>status = 200, body = Json c\<rparr>) \<and>
    (redis_lookup (tick d w) (''photos:id:'' @ i) = None \<and>
     find (\<lambda>b. asset_id b = i) (photo_tbl w) = Some a \<longrightarrow>
       fst (get_photo_by_id (Str i) (tick d (snd (delete_photo (Str i) w)))) =
         \<lparr>status = 200,
          body = Json (JAsset (a\<lparr>deletedAt := Some (clock w), updatedAt := clock w\<rparr>))\<rparr>)"
proof -
  let ?w2 = "snd (delete_photo (Str i) w)"
  let ?k = "''photos:id:'' @ i"
  have w2: "?w2 = snd (update_deletedAt photo i w)"
    using i by (rule delete_worlds(1))
  have frame: "redis ?w2 = redis w" "clock ?w2 = clock w"
    "redis_get_fails ?w2 = redis_get_fails w" "redis_setEx_fails ?w2 = redis_setEx_fails w"
    using update_deletedAt_redis [of photo i w] by (simp_all add: w2)
  have look: "redis_lookup (tick d ?w2) ?k = redis_lookup (tick d w) ?k"
    using frame(1,2) by (rule redis_lookup_tick)
  have up2: "\<not> redis_get_fails (tick d ?w2)" "\<not> redis_setEx_fails (tick d ?w2)"
    using up frame by (simp_all add: tick_def)
  have rows: "table photo (tick d ?w2) =
      map (\<lambda>b. if asset_id b = i then b\<lparr>deletedAt := Some (clock w), updatedAt := clock w\<rparr> else b)
        (photo_tbl w)"
    using update_deletedAt_rows [of photo i w] by (simp add: w2 table_def tick_def)
  have handler: "get_photo_by_id (Str i) (tick d ?w2) =
      fetchAndCache photo ?k (FindUnique i) (tick d ?w2)"
    using i by (simp add: get_photo_by_id_def)
  have hit: "fst (get_photo_by_id (Str i) (tick d ?w2)) = \<lparr>status = 200, body = Json c\<rparr>"
    if "redis_lookup (tick d w) ?k = Some c"
    using that up2 look by (simp add: handler fetchAndCache_hit)
  have miss: "fst (get_photo_by_id (Str i) (tick d ?w2)) =
         \<lparr>status = 200,
          body = Json (JAsset (a\<lparr>deletedAt := Some (clock w), updatedAt := clock w\<rparr>))\<rparr>"
    if "redis_lookup (tick d w) ?k = None" "find (\<lambda>b. asset_id b = i) (photo_tbl w) = Some a"
  proof -
    have "find (\<lambda>b. asset_id b = i) (table photo (tick d ?w2)) =
        Some (a\<lparr>deletedAt := Some (clock w), updatedAt := clock w\<rparr>)"
      using that(2) by (simp add: rows find_marked)
    with that(1) up2 look show ?thesis
      by (simp add: handler fetchAndCache_miss_found)
  qed
  show ?thesis
    using hit miss by (simp add: delete_redis)
qed

text \<open>
  The claim as the specification states it fails: the photo is looked up, soft-deleted
  and looked up again; the second lookup answers the row as it was before the delete.
\<close>

theorem soft_delete_stale_counterexample:
  "fst (get_photo_by_id (Str ''x'') deleted_world) =
     \<lparr>status = 200, body = Json (JAsset example_photo)\<rparr> \<and>
   deletedAt example_photo = None \<and>
   photo_tbl deleted_world = [example_photo\<lparr>deletedAt := Some 5, updatedAt := 5\<rparr>]"
  by (simp add: deleted_world_def cached_world_def example_world_def example_photo_def
      get_photo_by_id_def delete_photo_def update_deletedAt_def mark_deleted_def
      fetchAndCache_def world_defs)

theorem soft_delete_leaves_cache_witness:
  "\<not> redis_get_fails cached_world \<and> \<not> redis_setEx_fails cached_world \<and>
   redis_lookup (tick 3594 cached_world) ''photos:id:x'' = Some (JAsset example_photo) \<and>
   fst (get_photo_by_id (Str ''x'') (tick 3594 deleted_world)) =
     \<lparr>status = 200, body = Json (JAsset example_photo)\<rparr> \<and>
   redis_lookup (tick 3600 cached_world) ''photos:id:x'' = None \<and>
   fst (get_photo_by_id (Str ''x'') (tick 3600 deleted_world)) =
     \<lparr>status = 200, body = Json (JAsset (example_photo\<lparr>deletedAt := Some 5, updatedAt := 5\<rparr>))\<rparr>"
proof -
  have cw: "cached_world =
      example_world
        \<lparr>calls := [Redis_get ''photos:id:x'', Prisma photo ''findUnique'',
                   Redis_setEx ''photos:id:x'' 3600],
         redis := [''photos:id:x'' \<mapsto> (JAsset example_photo, 3605)]\<rparr>"
    by (simp add: cached_world_def example_world_def example_photo_def get_photo_by_id_def
        fetchAndCache_def world_defs)
  have up: "\<not> redis_get_fails cached_world" "\<not> redis_setEx_fails cached_world"
    by (simp_all add: cw example_world_def)
  have live: "redis_lookup (tick 3594 cached_world) ''photos:id:x'' = Some (JAsset example_photo)"
    by (simp add: cw example_world_def redis_lookup_def tick_def)
  have dead: "redis_lookup (tick 3600 cached_world) ''photos:id:x'' = None"
    by (simp add: cw example_world_def redis_lookup_def tick_def)
  have row: "find (\<lambda>b. asset_id b = ''x'') (photo_tbl cached_world) = Some example_photo"
    by (simp add: cw example_world_def example_photo_def)
  have clk: "clock cached_world = 5"
    by (simp add: cw example_world_def)
  show ?thesis
    using up live dead row clk
      soft_delete_leaves_cache [of cached_world "''x''" "Str ''x''" 3594 "JAsset example_photo" example_photo]
      soft_delete_leaves_cache [of cached_world "''x''" "Str ''x''" 3600 "JAsset example_photo" example_photo]
    by (simp add: deleted_world_def)
qed

section \<open>Tombstones in listings\<close>

lemma fetchAndCache_miss_rows:
  "\<not> redis_get_fails w \<Longrightarrow> \<not> redis_setEx_fails w \<Longrightarrow> redis_lookup w k = None \<Longrightarrow>
   filter (matches wh) (table m w) \<noteq> [] \<Longrightarrow>
   fetchAndCache m k (FindMany wh) w =
     (\<lparr>status = 200, body = Json (JAssets (filter (matches wh) (table m w)))\<rparr>,
      w\<lparr>calls := calls w @ [Redis_get k, Prisma m ''findMany'', Redis_setEx k 3600],
        redis := (redis w)(k \<mapsto> (JAssets (filter (matches wh) (table m w)), clock w + 3600))\<rparr>)"
  by (cases m) (simp_all add: fetchAndCache_def world_defs)

lemma parseInt_examples:
  "parseInt ''0'' = Num 0" "parseInt ''2'' = Num 2" "parseInt ''10'' = Num 10"
  by (simp_all add: parseInt_def to_number_def exact_def is_space_def is_digit_def
      digits_val_def digit_val_def)

lemma get_videos_paged_all:
  "get_videos_paged page (Some ''0'') tag w =
     Some (\<lparr>status = 200,
            body = Page \<lparr>videos = filter (matches (case tag of None \<Rightarrow> NoFilter
                                               | Some t \<Rightarrow> if t = [] then NoFilter else Has (trim t)))
                              (video_tbl w),
                   totalVideos = int (length (filter (matches (case tag of None \<Rightarrow> NoFilter
                                               | Some t \<Rightarrow> if t = [] then NoFilter else Has (trim t)))
                              (video_tbl w))),
                   totalPages = 1, currentPage = None,
                   hasNextPage = False, hasPreviousPage = False\<rparr>\<rparr>,
           w\<lparr>calls := calls w @ [Prisma video ''findMany'', Prisma video ''count'']\<rparr>)"
  by (simp add: get_videos_paged_def Let_def parseInt_examples count_def table_def record_call_def)

text \<open>
  Claim C2, as the code has it. No query of server.js tests \<open>deletedAt\<close>, so a
  soft-deleted row is listed like any other: the listing of all videos and the unpaged
  listing return the whole table, and a tag search that reaches the store returns every
  row sharing a tag with the query, the tombstone among them. A lookup by id that reaches
  the store returns the tombstone as well.
\<close>

theorem tombstones_not_filtered:
  assumes tomb: "deletedAt a = Some t"
    and up: "\<not> redis_get_fails w" "\<not> redis_setEx_fails w"
  shows
   "fst (get_all_videos w) =
      \<lparr>status = 200, body = AllVideos (video_tbl w) (length (video_tbl w))\<rparr> \<and>
    map_option fst (get_videos_paged page (Some ''0'') None w) =
      Some \<lparr>status = 200,
            body = Page \<lparr>videos = video_tbl w, totalVideos = int (length (video_tbl w)),
                         totalPages = 1, currentPage = None,
                         hasNextPage = False, hasPreviousPage = False\<rparr>\<rparr> \<and>
    (a \<in> set (photo_tbl w) \<and> ts \<noteq> [] \<and> matches (HasSome (tagList_of ts)) a \<and>
     redis_lookup w (tags_redisKey ''photos'' ts) = None \<longrightarrow>
       fst (get_photos_by_tags (Str ts) w) =
         \<lparr>status = 200,
          body = Json (JAssets (filter (matches (HasSome (tagList_of ts))) (photo_tbl w)))\<rparr> \<and>
       a \<in> set (filter (matches (HasSome (tagList_of ts))) (photo_tbl w))) \<and>
    (a \<in> set (video_tbl w) \<and> ts \<noteq> [] \<and> matches (HasSome (tagList_of ts)) a \<and>
     redis_lookup w (tags_redisKey ''videos'' ts) = None \<longrightarrow>
       fst (get_videos_by_tags (Str ts) w) =
         \<lparr>status = 200,
          body = Json (JAssets (filter (matches (HasSome (tagList_of ts))) (video_tbl w)))\<rparr> \<and>
       a \<in> set (filter (matches (HasSome (tagList_of ts))) (video_tbl w))) \<and>
    (asset_id a \<noteq> [] \<and> find (\<lambda>b. asset_id b = asset_id a) (photo_tbl w) = Some a \<and>
     redis_lookup w (''photos:id:'' @ asset_id a) = None \<longrightarrow>
       fst (get_photo_by_id (Str (asset_id a)) w) = \<lparr>status = 200, body = Json (JAsset a)\<rparr>)"
proof -
  have all: "fst (get_all_videos w) =
      \<lparr>status = 200, body = AllVideos (video_tbl w) (length (video_tbl w))\<rparr>"
    by (simp add: get_all_videos_def findMany_def table_def)
  have paged: "map_option fst (get_videos_paged page (Some ''0'') None w) =
      Some \<lparr>status = 200,
            body = Page \<lparr>videos = video_tbl w, totalVideos = int (length (video_tbl w)),
                         totalPages = 1, currentPage = None,
                         hasNextPage = False, hasPreviousPage = False\<rparr>\<rparr>"
    by (simp add: get_videos_paged_all)
  have search: "fst (fetchAndCache m k (FindMany wh) w) =
         \<lparr>status = 200, body = Json (JAssets (filter (matches wh) (table m w)))\<rparr> \<and>
       a \<in> set (filter (matches wh) (table m w))"
    if "a \<in> set (table m w)" "matches wh a" "redis_lookup w k = None" for m k wh
  proof -
    from that(1,2) have mem: "a \<in> set (filter (matches wh) (table m w))" by simp
    then have "filter (matches wh) (table m w) \<noteq> []" by (auto simp: filter_empty_conv)
    with up that(3) mem show ?thesis
      by (simp add: fetchAndCache_miss_rows)
  qed
  have byid: "fst (get_photo_by_id (Str (asset_id a)) w) = \<lparr>status = 200, body = Json (JAsset a)\<rparr>"
    if "asset_id a \<noteq> []" "find (\<lambda>b. asset_id b = asset_id a) (photo_tbl w) = Some a"
       "redis_lookup w (''photos:id:'' @ asset_id a) = None"
    using that up
      fetchAndCache_miss_found [of w "''photos:id:'' @ asset_id a" "asset_id a" photo a]
    by (simp add: get_photo_by_id_def table_def)
  show ?thesis
    using all paged byid
      search [of photo "HasSome (tagList_of ts)" "tags_redisKey ''photos'' ts"]
      search [of video "HasSome (tagList_of ts)" "tags_redisKey ''videos'' ts"]
    by (simp add: get_photos_by_tags_def get_videos_by_tags_def table_def)
qed

text \<open>
  The claim as the specification states it fails: the only video is soft-deleted, and
  both the tag search and the listing of all videos return it.
\<close>

theorem tombstone_listed_counterexample:
  "deletedAt example_tombstone = Some 3 \<and>
   fst (get_videos_by_tags (Str ''a'') example_world) =
     \<lparr>status = 200, body = Json (JAssets [example_tombstone])\<rparr> \<and>
   fst (get_all_videos example_world) =
     \<lparr>status = 200, body = AllVideos [example_tombstone] 1\<rparr>"
  by (simp add: example_world_def example_tombstone_def example_photo_def mark_deleted_def
      get_videos_by_tags_def get_all_videos_def tags_redisKey_def tagList_of_def trim_def
      is_space_def fetchAndCache_def world_defs)

theorem tombstones_not_filtered_witness:
  "deletedAt example_tombstone = Some 3 \<and>
   \<not> redis_get_fails example_world \<and> \<not> redis_setEx_fails example_world \<and>
   map_option fst (get_videos_paged None (Some ''0'') None example_world) =
      Some \<lparr>status = 200,
            body = Page \<lparr>videos = [example_tombstone], totalVideos = 1,
                         totalPages = 1, currentPage = None,
                         hasNextPage = False, hasPreviousPage = False\<rparr>\<rparr> \<and>
   fst (get_videos_by_tags (Str ''b'') example_world) =
     \<lparr>status = 200, body = Json (JAssets [example_tombstone])\<rparr>"
proof -
  have tomb: "deletedAt example_tombstone = Some 3"
    by (simp add: example_tombstone_def mark_deleted_def)
  have up: "\<not> redis_get_fails example_world" "\<not> redis_setEx_fails example_world"
    by (simp_all add: example_world_def)
  have tbl: "video_tbl example_world = [example_tombstone]"
    by (simp add: example_world_def)
  have m: "matches (HasSome (tagList_of ''b'')) example_tombstone"
    by (simp add: tagList_of_def trim_def is_space_def example_tombstone_def example_photo_def
        mark_deleted_def)
  have miss: "redis_lookup example_world (tags_redisKey ''videos'' ''b'') = None"
    by (simp add: redis_lookup_def example_world_def)
  show ?thesis
    using tomb up m miss
      tombstones_not_filtered [of example_tombstone 3 example_world None "''b''"]
    by (simp add: tbl)
qed

section \<open>The paged listing\<close>

subsection \<open>What the paging handler computes\<close>

lemma length_insert_by: "length (insert_by le x xs) = Suc (length xs)"
  by (induction xs) simp_all

lemma length_sort_by: "length (sort_by le xs) = length xs"
  by (induction xs) (simp_all add: sort_by_def length_insert_by)

lemma sort_by_sorted: "sorted_wrt le xs \<Longrightarrow> sort_by le xs = xs"
proof (induction xs)
  case Nil
  then show ?case by (simp add: sort_by_def)
next
  case (Cons x xs)
  then have tail: "sort_by le xs = xs" by simp
  have "sort_by le (x # xs) = insert_by le x (sort_by le xs)"
    by (simp add: sort_by_def)
  also have "\<dots> = insert_by le x xs"
    by (simp add: tail)
  also have "\<dots> = x # xs"
    using Cons.prems by (cases xs) simp_all
  finally show ?case .
qed

lemma page_window:
  "k + n \<le> length xs \<Longrightarrow> take n (drop k xs) = map ((!) xs) [k..<k + n]"
  by (auto simp: list_eq_iff_nth_eq)

lemma get_videos_paged_page:
  assumes lim: "parseInt lim = Num n" and n: "0 < n"
    and pg: "(case page of None \<Rightarrow> Num 1 | Some s \<Rightarrow> parseInt s) = Num p"
    and cp: "cp = (if 0 < p then p else 1)"
    and ms: "ms = filter (matches (case tag of None \<Rightarrow> NoFilter
                                     | Some t \<Rightarrow> if t = [] then NoFilter else Has (trim t)))
                    (video_tbl w)"
    and small: "exact ((cp - 1) * n)" "exact (int (length ms) + n)"
  shows "get_videos_paged page (Some lim) tag w =
     Some (\<lparr>status = 200,
            body = Page \<lparr>videos = take (nat n) (drop (nat ((cp - 1) * n)) (by_id w ms)),
                         totalVideos = int (length ms),
                         totalPages = ceil_div (int (length ms)) n,
                         currentPage = Some cp,
                         hasNextPage = (cp < ceil_div (int (length ms)) n),
                         hasPreviousPage = (cp > 1)\<rparr>\<rparr>,
           w\<lparr>calls := calls w @ [Prisma video ''findMany'', Prisma video ''count'']\<rparr>)"
proof -
  have ne: "lim \<noteq> []"
    using lim by (auto simp: parseInt_def)
  have "1 \<le> cp"
    by (simp add: cp)
  then have skip: "\<not> (cp - 1) * n < 0"
    using n by (simp add: mult_less_0_iff)
  have abs_n: "\<bar>n\<bar> = n"
    using n by simp
  show ?thesis
  proof (cases "0 < p")
    case True
    then have "cp = p" by (simp add: cp)
    with True ne lim n skip small show ?thesis
      by (simp add: get_videos_paged_def Let_def pg abs_n count_def table_def record_call_def
          paginate_def ms [symmetric])
  next
    case False
    then have "cp = 1" by (simp add: cp)
    with False ne lim n small show ?thesis
      by (simp add: get_videos_paged_def Let_def pg abs_n count_def table_def record_call_def
          paginate_def ms [symmetric])
  qed
qed

text \<open>A page number of twenty digits makes \<open>skip\<close> too large for Prisma.\<close>

lemma get_videos_paged_huge_page:
  "get_videos_paged (Some ''99999999999999999999'') (Some ''10'') tag w =
     Some (\<lparr>status = 500, body = ErrorOf (PrismaError ''PrismaClientValidationError'')\<rparr>,
           w\<lparr>calls := calls w @ [Prisma video ''findMany'', Prisma video ''count'']\<rparr>)"
  by (simp add: get_videos_paged_def Let_def parseInt_def to_number_def exact_def beyond_int64_def
      is_space_def is_digit_def digits_val_def digit_val_def count_def table_def record_call_def)

text \<open>
  The handler at lines 421-470 does what the specification describes. With 25 rows
  matching the tag filter, page 2 of size 10 holds the rows at positions 10 to 19 of the
  matching rows in id order (the 11th to the 20th), of 3 pages, with both flags set.
\<close>

lemma get_videos_paged_second_page:
  assumes ms: "ms = filter (matches (case tag of None \<Rightarrow> NoFilter
                                      | Some t \<Rightarrow> if t = [] then NoFilter else Has (trim t)))
                      (video_tbl w)"
    and len: "length ms = 25"
  shows "get_videos_paged (Some ''2'') (Some ''10'') tag w =
     Some (\<lparr>status = 200,
            body = Page \<lparr>videos = map ((!) (by_id w ms)) [10..<20], totalVideos = 25,
                         totalPages = 3, currentPage = Some 2,
                         hasNextPage = True, hasPreviousPage = True\<rparr>\<rparr>,
           w\<lparr>calls := calls w @ [Prisma video ''findMany'', Prisma video ''count'']\<rparr>)"
proof -
  have window: "take 10 (drop 10 (by_id w ms)) = map ((!) (by_id w ms)) [10..<20]"
    using page_window [of 10 10 "by_id w ms"] len by (simp add: by_id_def length_sort_by)
  have "get_videos_paged (Some ''2'') (Some ''10'') tag w =
     Some (\<lparr>status = 200,
            body = Page \<lparr>videos = take 10 (drop 10 (by_id w ms)), totalVideos = 25,
                         totalPages = 3, currentPage = Some 2,
                         hasNextPage = True, hasPreviousPage = True\<rparr>\<rparr>,
           w\<lparr>calls := calls w @ [Prisma video ''findMany'', Prisma video ''count'']\<rparr>)"
    using get_videos_paged_page [of "''10''" 10 "Some ''2''" 2 2 ms tag w] ms len
    by (simp add: parseInt_examples exact_def ceil_div_def)
  then show ?thesis
    by (simp only: window)
qed

lemma bytewise_replicate: "m \<le> n \<Longrightarrow> bytewise (replicate m c) (replicate n c)"
proof (induction m arbitrary: n)
  case 0
  then show ?case by simp
next
  case (Suc m)
  then obtain k where "n = Suc k" "m \<le> k"
    by (cases n) simp_all
  with Suc.IH show ?case by simp
qed

lemma nth_numbered:
  "a + d \<le> b \<Longrightarrow> map ((!) (map f [a..<b])) [c..<d] = map f [a + c..<a + d]"
  by (auto simp: list_eq_iff_nth_eq ac_simps)

subsection \<open>What the server answers\<close>

lemma GET_videos_first:
  "GET_videos q w =
     Answer \<lparr>status = 200, body = AllVideos (video_tbl w) (length (video_tbl w))\<rparr>
       (w\<lparr>calls := calls w @ [Prisma video ''findMany'']\<rparr>)"
  by (simp add: GET_videos_def videos_handlers_def get_all_videos_def findMany_def table_def
      record_call_def)

text \<open>
  Claim C6. The paging handler is the third one registered for GET /v1/videos. The
  first one answers every request, whatever its query, with all rows and their number.
  So the request for page 2 of size 10 over 25 videos is answered with all 25 rows, and
  with no
  \<open>totalPages\<close>, \<open>currentPage\<close>, \<open>hasNextPage\<close> or \<open>hasPreviousPage\<close>; the
  paging handler, which would answer the 11th to the 20th row of 3 pages with both flags
  set, is never run.
\<close>

theorem paged_request_answered_unpaged:
  "GET_videos q w =
     Answer \<lparr>status = 200, body = AllVideos (video_tbl w) (length (video_tbl w))\<rparr>
       (w\<lparr>calls := calls w @ [Prisma video ''findMany'']\<rparr>) \<and>
   length (video_tbl (videos_world 25)) = 25 \<and>
   GET_videos page_two_query (videos_world 25) =
     Answer \<lparr>status = 200, body = AllVideos (map numbered [1..<26]) 25\<rparr>
       ((videos_world 25)\<lparr>calls := [Prisma video ''findMany'']\<rparr>) \<and>
   map_option fst (get_videos_paged (q_page page_two_query) (q_limit page_two_query)
                     (q_tag page_two_query) (videos_world 25)) =
     Some \<lparr>status = 200,
           body = Page \<lparr>videos = map numbered [11..<21], totalVideos = 25, totalPages = 3,
                        currentPage = Some 2, hasNextPage = True, hasPreviousPage = True\<rparr>\<rparr>"
proof -
  let ?w = "videos_world 25"
  let ?ms = "map numbered [1..<26]"
  have tbl: "video_tbl ?w = ?ms"
    by (simp add: videos_world_def)
  have log: "calls ?w = []"
    by (simp add: videos_world_def example_world_def)
  have server: "GET_videos page_two_query ?w =
     Answer \<lparr>status = 200, body = AllVideos ?ms 25\<rparr> (?w\<lparr>calls := [Prisma video ''findMany'']\<rparr>)"
    by (simp add: GET_videos_first tbl log)
  have "sorted_wrt (\<lambda>m n. bytewise (asset_id (numbered m)) (asset_id (numbered n))) [1..<26]"
    using sorted_wrt_upt [of 1 26]
    by (rule sorted_wrt_mono_rel [rotated]) (simp add: numbered_def bytewise_replicate)
  then have "sorted_wrt (\<lambda>a b. bytewise (asset_id a) (asset_id b)) ?ms"
    by (simp add: sorted_wrt_map)
  then have ordered: "by_id ?w ?ms = ?ms"
    by (simp add: by_id_def videos_world_def example_world_def sort_by_sorted)
  have items: "map ((!) ?ms) [10..<20] = map numbered [11..<21]"
    using nth_numbered [of 1 20 26 numbered 10] by simp
  have "get_videos_paged (Some ''2'') (Some ''10'') None ?w =
     Some (\<lparr>status = 200,
            body = Page \<lparr>videos = map ((!) (by_id ?w ?ms)) [10..<20], totalVideos = 25,
                         totalPages = 3, currentPage = Some 2,
                         hasNextPage = True, hasPreviousPage = True\<rparr>\<rparr>,
           ?w\<lparr>calls := calls ?w @ [Prisma video ''findMany'', Prisma video ''count'']\<rparr>)"
    by (rule get_videos_paged_second_page) (simp_all add: tbl)
  then have "get_videos_paged (Some ''2'') (Some ''10'') None ?w =
     Some (\<lparr>status = 200,
            body = Page \<lparr>videos = map numbered [11..<21], totalVideos = 25,
                         totalPages = 3, currentPage = Some 2,
                         hasNextPage = True, hasPreviousPage = True\<rparr>\<rparr>,
           ?w\<lparr>calls := calls ?w @ [Prisma video ''findMany'', Prisma video ''count'']\<rparr>)"
    by (simp only: ordered items)
  then have handler: "map_option fst (get_videos_paged (q_page page_two_query)
        (q_limit page_two_query) (q_tag page_two_query) ?w) =
     Some \<lparr>status = 200,
           body = Page \<lparr>videos = map numbered [11..<21], totalVideos = 25, totalPages = 3,
                        currentPage = Some 2, hasNextPage = True, hasPreviousPage = True\<rparr>\<rparr>"
    by (simp add: page_two_query_def)
  show ?thesis
    using server handler by (simp add: tbl GET_videos_first)
qed

section \<open>Capacity\<close>

lemma find_absent: "\<not> list_ex P xs \<Longrightarrow> find P xs = None"
  by (simp add: find_None_iff list_ex_iff)

lemma upload_photo_full:
  assumes full: "50 \<le> length (photo_tbl w)"
  shows "status (fst (upload_photo P c req w)) = 400"
    and "photo_tbl (snd (upload_photo P c req w)) = photo_tbl w"
    and "req_file req \<noteq> None \<Longrightarrow> present (body_tags req) \<Longrightarrow>
         upload_photo P c req w =
           (\<lparr>status = 400, body = Error ''Photo storage limit reached (50)''\<rparr>,
            w\<lparr>calls := calls w @ [Prisma photo ''count'']\<rparr>)"
  using full
  by (auto simp: upload_photo_def count_def table_def record_call_def split: option.splits)

lemma upload_video_full:
  assumes full: "20 \<le> length (video_tbl w)"
  shows "status (fst (upload_video P c req w)) = 400"
    and "video_tbl (snd (upload_video P c req w)) = video_tbl w"
    and "req_file req \<noteq> None \<Longrightarrow> present (body_tags req) \<Longrightarrow>
         upload_video P c req w =
           (\<lparr>status = 400, body = Error ''Video storage limit reached (20)''\<rparr>,
            w\<lparr>calls := calls w @ [Prisma video ''count'']\<rparr>)"
  using full
  by (auto simp: upload_video_def count_def table_def record_call_def split: option.splits)

lemma upload_photo_admitted:
  assumes room: "length (photo_tbl w) < 50"
    and req: "req_file req = Some f" "present (body_tags req)"
    and tags: "P (the (body_tags req)) = TagArray ts"
    and fresh: "\<not> list_ex (\<lambda>b. asset_id b = (case body_imageId req of None \<Rightarrow> c | Some i \<Rightarrow> i))
                  (photo_tbl w)"
  shows "upload_photo P c req w =
     (\<lparr>status = 201,
       body = Json (JAsset \<lparr>asset_id = (case body_imageId req of None \<Rightarrow> c | Some i \<Rightarrow> i),
                            url = ''/uploads/'' @ f, tags = ts, title = [],
                            createdAt = clock w, updatedAt = clock w, deletedAt = None\<rparr>)\<rparr>,
      w\<lparr>calls := calls w @ Prisma photo ''count'' #
                   (if present (body_imageId req) then [Prisma photo ''findUnique''] else []) @
                   [Prisma photo ''create''],
        photo_tbl := photo_tbl w @
          [\<lparr>asset_id = (case body_imageId req of None \<Rightarrow> c | Some i \<Rightarrow> i),
            url = ''/uploads/'' @ f, tags = ts, title = [],
            createdAt = clock w, updatedAt = clock w, deletedAt = None\<rparr>]\<rparr>)"
proof (cases "present (body_imageId req)")
  case True
  then obtain i where i: "body_imageId req = Some i"
    by (auto simp: present_def split: option.splits)
  with fresh have "find (\<lambda>b. asset_id b = i) (photo_tbl w) = None"
    by (simp add: find_absent)
  with True i room req tags fresh show ?thesis
    by (simp add: upload_photo_def Let_def count_def findUnique_def create_def table_def set_table_def
        record_call_def)
next
  case False
  with room req tags fresh show ?thesis
    by (simp add: upload_photo_def Let_def count_def create_def table_def set_table_def record_call_def)
qed

lemma upload_video_admitted:
  assumes room: "length (video_tbl w) < 20"
    and req: "req_file req = Some f" "present (body_tags req)"
    and tags: "P (the (body_tags req)) = TagArray ts"
    and fresh: "\<not> list_ex (\<lambda>b. asset_id b = c) (video_tbl w)"
  shows "upload_video P c req w =
     (\<lparr>status = 201,
       body = Json (JAsset \<lparr>asset_id = c, url = ''/uploads/'' @ f, tags = ts, title = [],
                            createdAt = clock w, updatedAt = clock w, deletedAt = None\<rparr>)\<rparr>,
      w\<lparr>calls := calls w @ [Prisma video ''count'', Prisma video ''create''],
        video_tbl := video_tbl w @
          [\<lparr>asset_id = c, url = ''/uploads/'' @ f, tags = ts, title = [],
            createdAt = clock w, updatedAt = clock w, deletedAt = None\<rparr>]\<rparr>)"
  using room req tags fresh
  by (simp add: upload_video_def Let_def count_def create_def table_def set_table_def record_call_def)

text \<open>
  Claim C7. For an upload with a file and tags: with exactly 50 photo rows (20 video
  rows) the answer is the capacity error, after a single \<open>count\<close> call to Prisma and
  no call to Redis, and no request of any shape adds a row; with 49 photo rows (19 video
  rows), tags that parse to an array of strings and an id that is not taken, the answer
  is 201, the new row is appended and the table holds 50 (20) rows. The only calls are
  Prisma's.
\<close>

theorem capacity_admission:
  assumes newid: "newid = (case body_imageId req of None \<Rightarrow> c | Some i \<Rightarrow> i)"
    and ok: "req_file req = Some f" "present (body_tags req)"
  shows
   "(length (photo_tbl w) = 50 \<longrightarrow>
       upload_photo P c req w =
         (\<lparr>status = 400, body = Error ''Photo storage limit reached (50)''\<rparr>,
          w\<lparr>calls := calls w @ [Prisma photo ''count'']\<rparr>) \<and>
       status (fst (upload_photo P c any_req w)) = 400 \<and>
       photo_tbl (snd (upload_photo P c any_req w)) = photo_tbl w) \<and>
    (length (photo_tbl w) = 49 \<and> P (the (body_tags req)) = TagArray ts \<and>
     \<not> list_ex (\<lambda>b. asset_id b = newid) (photo_tbl w) \<longrightarrow>
       status (fst (upload_photo P c req w)) = 201 \<and>
       photo_tbl (snd (upload_photo P c req w)) =
         photo_tbl w @
           [\<lparr>asset_id = newid, url = ''/uploads/'' @ f, tags = ts, title = [],
             createdAt = clock w, updatedAt = clock w, deletedAt = None\<rparr>] \<and>
       length (photo_tbl (snd (upload_photo P c req w))) = 50 \<and>
       calls (snd (upload_photo P c req w)) =
         calls w @ Prisma photo ''count'' #
           (if present (body_imageId req) then [Prisma photo ''findUnique''] else []) @
           [Prisma photo ''create'']) \<and>
    (length (video_tbl w) = 20 \<longrightarrow>
       upload_video P c req w =
         (\<lparr>status = 400, body = Error ''Video storage limit reached (20)''\<rparr>,
          w\<lparr>calls := calls w @ [Prisma video ''count'']\<rparr>) \<and>
       status (fst (upload_video P c any_req w)) = 400 \<and>
       video_tbl (snd (upload_video P c any_req w)) = video_tbl w) \<and>
    (length (video_tbl w) = 19 \<and> P (the (body_tags req)) = TagArray ts \<and>
     \<not> list_ex (\<lambda>b. asset_id b = c) (video_tbl w) \<longrightarrow>
       status (fst (upload_video P c req w)) = 201 \<and>
       video_tbl (snd (upload_video P c req w)) =
         video_tbl w @
           [\<lparr>asset_id = c, url = ''/uploads/'' @ f, tags = ts, title = [],
             createdAt = clock w, updatedAt = clock w, deletedAt = None\<rparr>] \<and>
       length (video_tbl (snd (upload_video P c req w))) = 20 \<and>
       calls (snd (upload_video P c req w)) =
         calls w @ [Prisma video ''count'', Prisma video ''create''])"
proof (intro conjI impI)
  assume full: "length (photo_tbl w) = 50"
  then show "upload_photo P c req w =
         (\<lparr>status = 400, body = Error ''Photo storage limit reached (50)''\<rparr>,
          w\<lparr>calls := calls w @ [Prisma photo ''count'']\<rparr>)"
    using ok by (intro upload_photo_full(3)) simp_all
  from full show "status (fst (upload_photo P c any_req w)) = 400"
    by (intro upload_photo_full(1)) simp
  from full show "photo_tbl (snd (upload_photo P c any_req w)) = photo_tbl w"
    by (intro upload_photo_full(2)) simp
next
  assume full: "length (video_tbl w) = 20"
  then show "upload_video P c req w =
         (\<lparr>status = 400, body = Error ''Video storage limit reached (20)''\<rparr>,
          w\<lparr>calls := calls w @ [Prisma video ''count'']\<rparr>)"
    using ok by (intro upload_video_full(3)) simp_all
  from full show "status (fst (upload_video P c any_req w)) = 400"
    by (intro upload_video_full(1)) simp
  from full show "video_tbl (snd (upload_video P c any_req w)) = video_tbl w"
    by (intro upload_video_full(2)) simp
next
  assume a: "length (photo_tbl w) = 49 \<and> P (the (body_tags req)) = TagArray ts \<and>
     \<not> list_ex (\<lambda>b. asset_id b = newid) (photo_tbl w)"
  then have eq: "upload_photo P c req w = (\<lparr>status = 201,
       body = Json (JAsset \<lparr>asset_id = newid,
                            url = ''/uploads/'' @ f, tags = ts, title = [],
                            createdAt = clock w, updatedAt = clock w, deletedAt = None\<rparr>)\<rparr>,
      w\<lparr>calls := calls w @ Prisma photo ''count'' #
                   (if present (body_imageId req) then [Prisma photo ''findUnique''] else []) @
                   [Prisma photo ''create''],
        photo_tbl := photo_tbl w @
          [\<lparr>asset_id = newid,
            url = ''/uploads/'' @ f, tags = ts, title = [],
            createdAt = clock w, updatedAt = clock w, deletedAt = None\<rparr>]\<rparr>)"
    using ok upload_photo_admitted [of w req f P ts c] by (simp add: newid)
  show "status (fst (upload_photo P c req w)) = 201"
    by (simp add: eq)
  show "photo_tbl (snd (upload_photo P c req w)) =
         photo_tbl w @
           [\<lparr>asset_id = newid, url = ''/uploads/'' @ f, tags = ts, title = [],
             createdAt = clock w, updatedAt = clock w, deletedAt = None\<rparr>]"
    by (simp add: eq)
  show "length (photo_tbl (snd (upload_photo P c req w))) = 50"
    using a by (simp add: eq)
  show "calls (snd (upload_photo P c req w)) =
         calls w @ Prisma photo ''count'' #
           (if present (body_imageId req) then [Prisma photo ''findUnique''] else []) @
           [Prisma photo ''create'']"
    by (simp add: eq)
next
  assume a: "length (video_tbl w) = 19 \<and> P (the (body_tags req)) = TagArray ts \<and>
     \<not> list_ex (\<lambda>b. asset_id b = c) (video_tbl w)"
  then have eq: "upload_video P c req w =
     (\<lparr>status = 201,
       body = Json (JAsset \<lparr>asset_id = c, url = ''/uploads/'' @ f, tags = ts, title = [],
                            createdAt = clock w, updatedAt = clock w, deletedAt = None\<rparr>)\<rparr>,
      w\<lparr>calls := calls w @ [Prisma video ''count'', Prisma video ''create''],
        video_tbl := video_tbl w @
          [\<lparr>asset_id = c, url = ''/uploads/'' @ f, tags = ts, title = [],
            createdAt = clock w, updatedAt = clock w, deletedAt = None\<rparr>]\<rparr>)"
    using ok upload_video_admitted [of w req f P ts c] by simp
  show "status (fst (upload_video P c req w)) = 201"
    by (simp add: eq)
  show "video_tbl (snd (upload_video P c req w)) =
         video_tbl w @
           [\<lparr>asset_id = c, url = ''/uploads/'' @ f, tags = ts, title = [],
             createdAt = clock w, updatedAt = clock w, deletedAt = None\<rparr>]"
    by (simp add: eq)
  show "length (video_tbl (snd (upload_video P c req w))) = 20"
    using a by (simp add: eq)
  show "calls (snd (upload_video P c req w)) =
         calls w @ [Prisma video ''count'', Prisma video ''create'']"
    by (simp add: eq)
qed

lemma numbered_fresh: "asset_id (numbered n) \<noteq> ''new''"
  by (cases n) (simp_all add: numbered_def)

theorem capacity_admission_witness:
  "length (photo_tbl (photos_world 50)) = 50 \<and>
   upload_photo example_parse ''new'' example_upload (photos_world 50) =
     (\<lparr>status = 400, body = Error ''Photo storage limit reached (50)''\<rparr>,
      (photos_world 50)\<lparr>calls := [Prisma photo ''count'']\<rparr>) \<and>
   length (photo_tbl (photos_world 49)) = 49 \<and>
   status (fst (upload_photo example_parse ''new'' example_upload (photos_world 49))) = 201 \<and>
   length (photo_tbl (snd (upload_photo example_parse ''new'' example_upload (photos_world 49)))) = 50 \<and>
   length (video_tbl (videos_world 20)) = 20 \<and>
   status (fst (upload_video example_parse ''new'' example_upload (videos_world 20))) = 400 \<and>
   length (video_tbl (videos_world 19)) = 19 \<and>
   length (video_tbl (snd (upload_video example_parse ''new'' example_upload (videos_world 19)))) = 20"
proof -
  have req: "req_file example_upload = Some ''1-2-f.png''" "present (body_tags example_upload)"
    "example_parse (the (body_tags example_upload)) = TagArray []"
    "(case body_imageId example_upload of None \<Rightarrow> ''new'' | Some i \<Rightarrow> i) = ''new''"
    by (simp_all add: example_upload_def example_parse_def present_def)
  have len: "length (photo_tbl (photos_world n)) = n" "length (video_tbl (videos_world n)) = n"
    "calls (photos_world n) = []" for n
    by (simp_all add: photos_world_def videos_world_def example_world_def)
  have fresh: "\<not> list_ex (\<lambda>b. asset_id b = ''new'') (photo_tbl (photos_world n))"
    "\<not> list_ex (\<lambda>b. asset_id b = ''new'') (video_tbl (videos_world n))" for n
    by (simp_all add: photos_world_def videos_world_def list_ex_iff numbered_fresh)
  show ?thesis
    using req fresh [of 49] fresh [of 19]
      capacity_admission [where newid = "''new''" and req = example_upload and c = "''new''"
        and f = "''1-2-f.png''" and w = "photos_world 50" and P = example_parse and ts = "[]"]
      capacity_admission [where newid = "''new''" and req = example_upload and c = "''new''"
        and f = "''1-2-f.png''" and w = "photos_world 49" and P = example_parse and ts = "[]"]
      capacity_admission [where newid = "''new''" and req = example_upload and c = "''new''"
        and f = "''1-2-f.png''" and w = "videos_world 20" and P = example_parse and ts = "[]"]
      capacity_admission [where newid = "''new''" and req = example_upload and c = "''new''"
        and f = "''1-2-f.png''" and w = "videos_world 19" and P = example_parse and ts = "[]"]
    by (simp add: len)
qed

end
